theory Spec2Isabelle
  imports Complex_Main "HOL-Library.Multiset" "HOL-Library.AList"
begin

section \<open>Conventions of the embedding\<close>

text \<open>
  The program is the valuation and trade-impact engine of \<^verbatim>\<open>fairness.js\<close> and the
  part of the \<^verbatim>\<open>/api/evaluate\<close> handler of \<^verbatim>\<open>index.js\<close> that splits rosters and
  resolves the outgoing players.

  \<^item> A JavaScript number is a \<^typ>\<open>real\<close>: neither the infinities nor a negative zero
    occur. The value \<^verbatim>\<open>NaN\<close> appears only as the result \<open>None\<close> of a conversion to a
    number, where the source replaces it at once (\<^verbatim>\<open>Number(v) || 0\<close>) or tests it
    (\<^verbatim>\<open>Number.isFinite\<close>).
  \<^item> Sums, differences and quotients of the trade impact and of the per-game rates are
    exact. In \<^verbatim>\<open>valuePlayers\<close> and in the conversion of a string to a number the result
    depends on the rounding of double-precision arithmetic: there every operation is
    followed by the rounding \<open>double\<close> to the nearest double. A result of magnitude
    \<open>2\<^sup>1\<^sup>0\<^sup>2\<^sup>4\<close> or more, which is an infinity in JavaScript, is outside the numbers of the
    model.
  \<^item> A JavaScript object whose keys matter is an association list in the order of
    \<^verbatim>\<open>Object.entries\<close>.
  \<^item> A string is a list of ASCII characters.
  \<^item> A \<^verbatim>\<open>TypeError\<close> is a value: a function that can throw returns a sum.
\<close>

section \<open>Double-precision rounding\<close>

text \<open>
  The rounding of a real number to the nearest double (IEEE 754 binary64), a tie going to
  the even significand. \<open>binade\<close> finds the exponent \<open>e\<close> with
  \<open>2\<^sup>e \<le> a < 2\<^sup>e\<^sup>+\<^sup>1\<close> by halving or doubling, and stops at -1022, where the
  subnormal numbers begin, and at 1024. The doubles with exponent \<open>e\<close> are the
  multiples of \<open>2\<^sup>e\<^sup>-\<^sup>5\<^sup>2\<close>.
\<close>

definition roundHalfEven :: "real \<Rightarrow> int" where
  "roundHalfEven q =
     (let f = \<lfloor>q\<rfloor>; d = q - of_int f
      in if d < 1 / 2 then f else if 1 / 2 < d then f + 1 else if even f then f else f + 1)"

fun binade :: "nat \<Rightarrow> real \<Rightarrow> int \<Rightarrow> int" where
  "binade 0 a e = e"
| "binade (Suc n) a e =
     (if 2 \<le> a \<and> e < 1024 then binade n (a / 2) (e + 1)
      else if a < 1 \<and> - 1022 < e then binade n (2 * a) (e - 1)
      else e)"

definition double :: "real \<Rightarrow> real" where
  "double x =
     (if x = 0 then 0
      else let a = \<bar>x\<bar>; e = binade 1100 a 0; u = 2 powi (e - 52)
           in sgn x * of_int (roundHalfEven (a / u)) * u)"

definition overflows :: "real \<Rightarrow> bool" where
  \<comment> \<open>the numbers that round to an infinity: from the midpoint between the largest double
      and \<open>2\<^sup>1\<^sup>0\<^sup>2\<^sup>4\<close> on\<close>
  "overflows x = (2 ^ 1024 - 2 ^ 970 \<le> \<bar>x\<bar>)"

section \<open>Dynamically typed values\<close>

text \<open>
  The primitive values. \<open>JNaN\<close> is the number \<^verbatim>\<open>NaN\<close>. The fields \<^verbatim>\<open>gp\<close> and
  \<^verbatim>\<open>games_played\<close> of a player and the values of its \<^verbatim>\<open>stats\<close> are primitive:
  \<^verbatim>\<open>normalize\<close> stores numbers there.
\<close>

datatype jsval = JUndefined | JNull | JBool bool | JNum real | JNaN | JStr string

fun truthy :: "jsval \<Rightarrow> bool" where
  "truthy JUndefined = False"
| "truthy JNull = False"
| "truthy (JBool b) = b"
| "truthy (JNum r) = (r \<noteq> 0)"
| "truthy JNaN = False"
| "truthy (JStr s) = (s \<noteq> [])"

definition jsOr :: "jsval \<Rightarrow> jsval \<Rightarrow> jsval" where
  \<comment> \<open>\<^verbatim>\<open>a || b\<close>\<close>
  "jsOr a b = (if truthy a then a else b)"

subsection \<open>Conversion of a string to a number\<close>

text \<open>
  The mathematical value of a numeric string of ASCII characters: white space is trimmed,
  the empty string is 0, and the rest must be a binary, octal or hexadecimal integer
  literal or a signed decimal literal with optional fraction and exponent. Anything else
  is no numeric literal.
\<close>

definition isWhite :: "char \<Rightarrow> bool" where
  "isWhite c = (c \<in> set [CHR 0x09, CHR 0x0A, CHR 0x0B, CHR 0x0C, CHR 0x0D, CHR '' ''])"

definition trimWhite :: "string \<Rightarrow> string" where
  "trimWhite s = rev (dropWhile isWhite (rev (dropWhile isWhite s)))"

definition digitOf :: "char \<Rightarrow> nat option" where
  "digitOf c = map_of (zip ''0123456789abcdef'' [0 ..< 16] @ zip ''ABCDEF'' [10 ..< 16]) c"

definition isDigit :: "nat \<Rightarrow> char \<Rightarrow> bool" where
  \<comment> \<open>a digit of the base \<open>b\<close>\<close>
  "isDigit b c = (case digitOf c of None \<Rightarrow> False | Some d \<Rightarrow> d < b)"

definition digitsValue :: "nat \<Rightarrow> string \<Rightarrow> nat" where
  "digitsValue b ds = foldl (\<lambda>acc c. b * acc + (case digitOf c of None \<Rightarrow> 0 | Some d \<Rightarrow> d)) 0 ds"

definition allDigits :: "nat \<Rightarrow> string \<Rightarrow> nat option" where
  \<comment> \<open>a non-empty run of digits of the base \<open>b\<close>, and nothing else\<close>
  "allDigits b ds = (if ds \<noteq> [] \<and> list_all (isDigit b) ds then Some (digitsValue b ds) else None)"

definition nonDecimal :: "string \<Rightarrow> nat option" where
  "nonDecimal s =
     (case s of
        z # x # ds \<Rightarrow>
          if z \<noteq> CHR ''0'' then None
          else if x = CHR ''x'' \<or> x = CHR ''X'' then allDigits 16 ds
          else if x = CHR ''o'' \<or> x = CHR ''O'' then allDigits 8 ds
          else if x = CHR ''b'' \<or> x = CHR ''B'' then allDigits 2 ds
          else None
      | _ \<Rightarrow> None)"

definition exponentPart :: "string \<Rightarrow> int option" where
  "exponentPart s =
     (case s of
        [] \<Rightarrow> Some 0
      | e # r \<Rightarrow>
          if e = CHR ''e'' \<or> e = CHR ''E'' then
            (case r of
               [] \<Rightarrow> None
             | sg # ds \<Rightarrow>
                 if sg = CHR ''+'' then map_option int (allDigits 10 ds)
                 else if sg = CHR ''-'' then map_option (\<lambda>n. - int n) (allDigits 10 ds)
                 else map_option int (allDigits 10 r))
          else None)"

definition unsignedDecimal :: "string \<Rightarrow> real option" where
  "unsignedDecimal s =
     (let ip = takeWhile (isDigit 10) s;
          r1 = dropWhile (isDigit 10) s;
          dot = (r1 \<noteq> [] \<and> hd r1 = CHR ''.'');
          fp = (if dot then takeWhile (isDigit 10) (tl r1) else []);
          r2 = (if dot then dropWhile (isDigit 10) (tl r1) else r1)
      in if ip = [] \<and> fp = [] then None
         else (case exponentPart r2 of
                 None \<Rightarrow> None
               | Some e \<Rightarrow>
                   Some ((real (digitsValue 10 ip) + real (digitsValue 10 fp) / 10 ^ length fp)
                         * 10 powi e)))"

definition strDecimal :: "string \<Rightarrow> real option" where
  "strDecimal s =
     (case s of
        [] \<Rightarrow> None
      | c # r \<Rightarrow>
          if c = CHR ''+'' then unsignedDecimal r
          else if c = CHR ''-'' then map_option uminus (unsignedDecimal r)
          else unsignedDecimal s)"

definition literalValue :: "string \<Rightarrow> real option" where
  "literalValue s =
     (let t = trimWhite s
      in if t = [] then Some 0
         else (case nonDecimal t of Some n \<Rightarrow> Some (real n) | None \<Rightarrow> strDecimal t))"

text \<open>
  \<^verbatim>\<open>Number(s)\<close> on a string, when it is a finite number: the double nearest to the value
  of the literal, which is 0 for a literal that is small enough. The result is \<open>None\<close>
  when \<^verbatim>\<open>Number(s)\<close> is \<^verbatim>\<open>NaN\<close>, for a string that is no numeric literal, and when it
  is an infinity, for a literal that rounds to one and for the literal \<^verbatim>\<open>Infinity\<close>.
\<close>

definition strToNumber :: "string \<Rightarrow> real option" where
  "strToNumber s =
     (case literalValue s of
        None \<Rightarrow> None
      | Some x \<Rightarrow> if overflows x then None else Some (double x))"

text \<open>\<^verbatim>\<open>Number(v)\<close> on a primitive value, when it is a finite number.\<close>

fun toNumber :: "jsval \<Rightarrow> real option" where
  "toNumber JUndefined = None"
| "toNumber JNull = Some 0"
| "toNumber (JBool b) = Some (if b then 1 else 0)"
| "toNumber (JNum r) = Some r"
| "toNumber JNaN = None"
| "toNumber (JStr s) = strToNumber s"

definition numberOr0 :: "jsval \<Rightarrow> real" where
  \<comment> \<open>\<^verbatim>\<open>Number(v) || 0\<close>\<close>
  "numberOr0 v = (case toNumber v of None \<Rightarrow> 0 | Some r \<Rightarrow> r)"

subsection \<open>Parsed JSON\<close>

text \<open>
  The league settings are parsed JSON: a primitive value, an array, or an object, which
  is the list of its own properties. \<^verbatim>\<open>Number\<close> converts an array or an object through
  its string. The string of an object is \<^verbatim>\<open>[object Object]\<close>, which is no number; but an
  object with an own property \<^verbatim>\<open>toString\<close>, which parsed JSON cannot make a function,
  has no string, and the conversion raises a \<^verbatim>\<open>TypeError\<close>. The string of an array
  joins the strings of its elements with commas, \<^verbatim>\<open>null\<close> and \<^verbatim>\<open>undefined\<close> giving
  the empty string: it raises when an element does, is empty for the empty array, is the
  string of the element for an array of one element, and is no number when there are two
  elements or more.
\<close>

datatype error = TypeError

datatype json = JPrim jsval | JArr "json list" | JObj "(string \<times> json) list"

fun jsonTruthy :: "json \<Rightarrow> bool" where
  "jsonTruthy (JPrim v) = truthy v"
| "jsonTruthy (JArr xs) = True"
| "jsonTruthy (JObj kvs) = True"

definition jsonOr :: "json \<Rightarrow> json \<Rightarrow> json" where
  \<comment> \<open>\<^verbatim>\<open>a || b\<close>\<close>
  "jsonOr a b = (if jsonTruthy a then a else b)"

fun toStringThrows :: "json \<Rightarrow> bool" where
  "toStringThrows (JPrim v) = False"
| "toStringThrows (JArr xs) = list_ex toStringThrows xs"
| "toStringThrows (JObj kvs) = (map_of kvs ''toString'' \<noteq> None)"

fun joinedNumber :: "json list \<Rightarrow> real option" where
  \<comment> \<open>\<^verbatim>\<open>Number(xs.join(","))\<close> when no element raises, when it is a finite number\<close>
  "joinedNumber [] = Some 0"
| "joinedNumber [JPrim JUndefined] = Some 0"
| "joinedNumber [JPrim JNull] = Some 0"
| "joinedNumber [JPrim (JBool b)] = None"
| "joinedNumber [JPrim v] = toNumber v"
| "joinedNumber [JArr ys] = joinedNumber ys"
| "joinedNumber [JObj kvs] = None"
| "joinedNumber (x # y # zs) = None"

definition jsonToNumber :: "json \<Rightarrow> error + real option" where
  \<comment> \<open>\<^verbatim>\<open>Number(x)\<close>: a \<^verbatim>\<open>TypeError\<close>, or the finite number, or \<open>None\<close> for \<^verbatim>\<open>NaN\<close> and
      the infinities\<close>
  "jsonToNumber x =
     (case x of
        JPrim v \<Rightarrow> Inr (toNumber v)
      | JArr xs \<Rightarrow> if toStringThrows x then Inl TypeError else Inr (joinedNumber xs)
      | JObj kvs \<Rightarrow> if toStringThrows x then Inl TypeError else Inr None)"

section \<open>The verdict\<close>

datatype status = APPROVE | REVIEW

record verdict_result =
  status :: status
  color :: string

text \<open>
  The third parameter of \<^verbatim>\<open>verdict\<close> is an object with three optional fields,
  itself optional: \<open>None\<close> is an absent field.
\<close>

record thresholds =
  lossTol :: "real option"
  gainMin :: "real option"
  imbalanceMax :: "real option"

definition noThresholds :: thresholds where
  "noThresholds = \<lparr>lossTol = None, gainMin = None, imbalanceMax = None\<rparr>"

definition orDefault :: "real option \<Rightarrow> real \<Rightarrow> real" where
  "orDefault v d = (case v of None \<Rightarrow> d | Some x \<Rightarrow> x)"

definition verdict :: "real \<Rightarrow> real \<Rightarrow> thresholds option \<Rightarrow> verdict_result" where
  "verdict tiA tiB opts =
     (let t = (case opts of None \<Rightarrow> noThresholds | Some o' \<Rightarrow> o');
          lossTol' = orDefault (lossTol t) (- 0.35);
          gainMin' = orDefault (gainMin t) 0.25;
          imbalanceMax' = orDefault (imbalanceMax t) 1.0;
          imbalance = \<bar>tiA - tiB\<bar>;
          bothAboveLossTol = (tiA \<ge> lossTol' \<and> tiB \<ge> lossTol');
          oneAboveGain = (tiA \<ge> gainMin' \<or> tiB \<ge> gainMin');
          okImbalance = (imbalance \<le> imbalanceMax')
      in if bothAboveLossTol \<and> oneAboveGain \<and> okImbalance
         then \<lparr>status = APPROVE, color = ''green''\<rparr>
         else \<lparr>status = REVIEW, color = ''yellow''\<rparr>)"

definition given :: "real \<Rightarrow> real \<Rightarrow> real \<Rightarrow> thresholds option" where
  "given l g i = Some \<lparr>lossTol = Some l, gainMin = Some g, imbalanceMax = Some i\<rparr>"

section \<open>Players and roster slots\<close>

text \<open>
  A player object, with the fields the engine reads. Every field that the source reads
  defensively (\<^verbatim>\<open>p.value || 0\<close>, \<^verbatim>\<open>p.pos || []\<close>, \<^verbatim>\<open>p.stats || {}\<close>,
  \<^verbatim>\<open>p.per?.[id]\<close>) is optional, \<open>None\<close> being \<^verbatim>\<open>undefined\<close>; \<^verbatim>\<open>isGoalie\<close> is only
  tested for truth, so \<^verbatim>\<open>undefined\<close> is \<open>False\<close>. The type \<open>'k\<close> is the type of the
  property keys of \<^verbatim>\<open>stats\<close> and \<^verbatim>\<open>per\<close>, which are the statistic ids. Other fields of
  the object (the name) are never read.
\<close>

record 'k player =
  player_key :: "string option"
  pos :: "string list option"
  isGoalie :: bool
  stats :: "('k \<times> jsval) list option"
  gp :: jsval
  games_played :: jsval
  per :: "('k \<times> real) list option"
  "value" :: "real option"

text \<open>
  The slot requirements \<^verbatim>\<open>startersByPos\<close>: an object from slot label to count, read
  with \<^verbatim>\<open>Object.entries\<close> in its declaration order. The counts are the non-negative
  integers of the data model.
\<close>

type_synonym slots = "(string \<times> nat) list"

definition valueOr0 :: "'k player \<Rightarrow> real" where
  \<comment> \<open>\<^verbatim>\<open>p.value || 0\<close> and \<^verbatim>\<open>Number(p.value) || 0\<close>\<close>
  "valueOr0 p = (case value p of None \<Rightarrow> 0 | Some v \<Rightarrow> v)"

definition sortByValue :: "'k player list \<Rightarrow> 'k player list" where
  \<comment> \<open>\<^verbatim>\<open>[...ps].sort((a, b) => (b.value || 0) - (a.value || 0))\<close>: a stable sort, descending\<close>
  "sortByValue ps = sort_key (\<lambda>p. - valueOr0 p) ps"

definition anyOpen :: "slots \<Rightarrow> bool" where
  \<comment> \<open>\<^verbatim>\<open>Object.values(need).some((n) => n > 0)\<close>\<close>
  "anyOpen need = list_ex (\<lambda>n. n > 0) (map snd need)"

subsection \<open>The greedy pass of \<^verbatim>\<open>tradeImpactForTeam\<close>\<close>

definition eligible :: "string \<Rightarrow> 'k player \<Rightarrow> bool" where
  "eligible l p =
     (if l = ''Util'' then \<not> isGoalie p
      else if l = ''G'' then isGoalie p
      else l \<in> set (case pos p of None \<Rightarrow> [] | Some ps \<Rightarrow> ps))"

text \<open>
  The inner loop over \<^verbatim>\<open>Object.entries(need)\<close>: the first entry that the player is
  eligible for and that has a positive count, if there is one.
\<close>

fun firstOpen :: "slots \<Rightarrow> 'k player \<Rightarrow> (string \<times> nat) option" where
  "firstOpen [] p = None"
| "firstOpen ((l, c) # es) p = (if eligible l p \<and> c > 0 then Some (l, c) else firstOpen es p)"

text \<open>
  The outer loop over the sorted pool, with its three variables \<^verbatim>\<open>chosen\<close>,
  \<^verbatim>\<open>leftovers\<close> and \<^verbatim>\<open>need\<close>.
\<close>

fun fillSlots ::
  "'k player list \<Rightarrow> 'k player list \<Rightarrow> 'k player list \<Rightarrow> slots
    \<Rightarrow> 'k player list \<times> 'k player list \<times> slots" where
  "fillSlots [] chosen leftovers need = (chosen, leftovers, need)"
| "fillSlots (p # ps) chosen leftovers need =
     (case firstOpen need p of
        Some (l, c) \<Rightarrow> fillSlots ps (chosen @ [p]) leftovers (AList.update l (c - 1) need)
      | None \<Rightarrow> fillSlots ps chosen (leftovers @ [p]) need)"

text \<open>
  The loop over the sorted free agents: a free agent with no slot is skipped, and the
  loop stops as soon as no slot is open.
\<close>

fun backfill :: "'k player list \<Rightarrow> 'k player list \<Rightarrow> slots \<Rightarrow> 'k player list \<times> slots" where
  "backfill [] chosen need = (chosen, need)"
| "backfill (p # ps) chosen need =
     (case firstOpen need p of
        Some (l, c) \<Rightarrow>
          (let chosen' = chosen @ [p]; need' = AList.update l (c - 1) need
           in if \<not> anyOpen need' then (chosen', need') else backfill ps chosen' need')
      | None \<Rightarrow> if \<not> anyOpen need then (chosen, need) else backfill ps chosen need)"

definition sumValues :: "'k player list \<Rightarrow> real" where
  \<comment> \<open>\<^verbatim>\<open>ps.reduce((acc, p) => acc + (Number(p.value) || 0), 0)\<close>\<close>
  "sumValues ps = foldl (\<lambda>acc p. acc + valueOr0 p) 0 ps"

definition orEmpty :: "'a list option \<Rightarrow> 'a list" where
  \<comment> \<open>\<^verbatim>\<open>xs || []\<close>\<close>
  "orEmpty xs = (case xs of None \<Rightarrow> [] | Some ys \<Rightarrow> ys)"

text \<open>The lineup \<^verbatim>\<open>chosen\<close> at the end of \<^verbatim>\<open>tradeImpactForTeam\<close>.\<close>

definition chosenLineup ::
  "'k player list \<Rightarrow> 'k player list \<Rightarrow> 'k player list option \<Rightarrow> 'k player list option \<Rightarrow> slots
    \<Rightarrow> 'k player list" where
  "chosenLineup starters bench incoming freeAgents startersByPos =
     (let after = starters @ bench;
          withIncoming = after @ orEmpty incoming;
          sorted = sortByValue withIncoming;
          (chosen, leftovers, need) = fillSlots sorted [] [] startersByPos
      in if anyOpen need
         then fst (backfill (sortByValue (orEmpty freeAgents)) chosen need)
         else chosen)"

definition tradeImpactForTeam ::
  "'k player list \<Rightarrow> 'k player list \<Rightarrow> 'k player list option \<Rightarrow> 'k player list option \<Rightarrow> slots
    \<Rightarrow> real" where
  "tradeImpactForTeam starters bench incoming freeAgents startersByPos =
     (let chosen = chosenLineup starters bench incoming freeAgents startersByPos;
          strength = sumValues chosen;
          baseline = sumValues starters
      in strength - baseline)"

subsection \<open>The handler of \<^verbatim>\<open>/api/evaluate\<close>, from the valued rosters on\<close>

text \<open>
  The rosters \<^verbatim>\<open>Aall\<close>, \<^verbatim>\<open>Ball\<close> and the free agents \<^verbatim>\<open>FAall\<close> are \<open>A_all\<close>,
  \<open>B_all\<close> and \<open>FA_all\<close> here.
\<close>

definition eligibleRoster :: "string \<Rightarrow> 'k player \<Rightarrow> bool" where
  \<comment> \<open>as \<open>eligible\<close>, with \<^verbatim>\<open>p.pos?.includes(pos)\<close>\<close>
  "eligibleRoster l p =
     (if l = ''Util'' then \<not> isGoalie p
      else if l = ''G'' then isGoalie p
      else (case pos p of None \<Rightarrow> False | Some ps \<Rightarrow> l \<in> set ps))"

fun firstOpenRoster :: "slots \<Rightarrow> 'k player \<Rightarrow> (string \<times> nat) option" where
  "firstOpenRoster [] p = None"
| "firstOpenRoster ((l, c) # es) p =
     (if c > 0 \<and> eligibleRoster l p then Some (l, c) else firstOpenRoster es p)"

fun pickLoop ::
  "'k player list \<Rightarrow> 'k player list \<Rightarrow> 'k player list \<Rightarrow> slots
    \<Rightarrow> 'k player list \<times> 'k player list \<times> slots" where
  "pickLoop [] starters bench need = (starters, bench, need)"
| "pickLoop (p # ps) starters bench need =
     (case firstOpenRoster need p of
        Some (l, c) \<Rightarrow> pickLoop ps (starters @ [p]) bench (AList.update l (c - 1) need)
      | None \<Rightarrow> pickLoop ps starters (bench @ [p]) need)"

definition pickStarters :: "slots \<Rightarrow> 'k player list \<Rightarrow> 'k player list \<times> 'k player list" where
  "pickStarters startersByPos players =
     (let sorted = sortByValue players;
          (starters, bench, need) = pickLoop sorted [] [] startersByPos
      in (starters, bench))"

text \<open>
  \<^verbatim>\<open>byKey\<close> builds a plain object from the roster: the key of a player is the string
  of its \<^verbatim>\<open>player_key\<close>, and a later player replaces an earlier one with the same key.
  Reading \<^verbatim>\<open>Amap[k]\<close> finds an own property first and then a member of
  \<^verbatim>\<open>Object.prototype\<close>, which is a function (or, for \<^verbatim>\<open>__proto__\<close>, the prototype
  itself): an object that is truthy and has none of the fields of a player.
\<close>

definition keyString :: "string option \<Rightarrow> string" where
  "keyString k = (case k of None \<Rightarrow> ''undefined'' | Some s \<Rightarrow> s)"

definition byKey :: "'k player list \<Rightarrow> (string \<times> 'k player) list" where
  "byKey list = map (\<lambda>p. (keyString (player_key p), p)) list"

definition objectPrototypeKeys :: "string list" where
  "objectPrototypeKeys =
     [''constructor'', ''__defineGetter__'', ''__defineSetter__'', ''hasOwnProperty'',
      ''__lookupGetter__'', ''__lookupSetter__'', ''isPrototypeOf'', ''propertyIsEnumerable'',
      ''toString'', ''valueOf'', ''__proto__'', ''toLocaleString'']"

definition inheritedMember :: "'k player" where
  "inheritedMember =
     \<lparr>player_key = None, pos = None, isGoalie = False, stats = None, gp = JUndefined,
      games_played = JUndefined, per = None, value = None\<rparr>"

definition getByKey :: "(string \<times> 'k player) list \<Rightarrow> string \<Rightarrow> 'k player option" where
  \<comment> \<open>\<^verbatim>\<open>Amap[k]\<close>, \<open>None\<close> being \<^verbatim>\<open>undefined\<close>\<close>
  "getByKey entries k =
     (case map_of (rev entries) k of
        Some p \<Rightarrow> Some p
      | None \<Rightarrow> if k \<in> set objectPrototypeKeys then Some inheritedMember else None)"

definition outgoing :: "'k player list \<Rightarrow> string list \<Rightarrow> 'k player list" where
  \<comment> \<open>\<^verbatim>\<open>send.map((k) => Amap[k]).filter(Boolean)\<close> with \<^verbatim>\<open>Amap = byKey(Aall)\<close>\<close>
  "outgoing roster send = List.map_filter (getByKey (byKey roster)) send"

definition removeOutgoing :: "'k player list \<Rightarrow> 'k player list \<Rightarrow> 'k player list" where
  "removeOutgoing arr out =
     filter (\<lambda>p. \<not> list_ex (\<lambda>o'. player_key o' = player_key p) out) arr"

definition toFixed :: "nat \<Rightarrow> real \<Rightarrow> real" where
  \<comment> \<open>\<^verbatim>\<open>Number(x.toFixed(d))\<close>: the nearest multiple of \<open>10\<^sup>-\<^sup>d\<close>, a tie going away from zero\<close>
  "toFixed d x = sgn x * real_of_int \<lfloor>\<bar>x\<bar> * 10 ^ d + 1 / 2\<rfloor> / 10 ^ d"

text \<open>
  The result: the two impacts as computed (\<open>raw_a\<close>, \<open>raw_b\<close>), and the response with
  the impacts rounded to three decimals and the verdict. The three thresholds are the
  numbers that the handler reads from its environment and always passes on.
\<close>

record evaluation =
  raw_a :: real
  raw_b :: real
  impact_a :: real
  impact_b :: real
  verdict_of :: verdict_result

definition evaluate ::
  "'k player list \<Rightarrow> 'k player list \<Rightarrow> 'k player list \<Rightarrow> slots \<Rightarrow> string list \<Rightarrow> string list
    \<Rightarrow> real \<Rightarrow> real \<Rightarrow> real \<Rightarrow> evaluation" where
  "evaluate A_all B_all FA_all startersByPos sendA sendB lossTolerance gainMinimum imbalanceLimit =
     (let (Astarters, Abench) = pickStarters startersByPos A_all;
          (Bstarters, Bbench) = pickStarters startersByPos B_all;
          outgoingA = outgoing A_all sendA;
          outgoingB = outgoing B_all sendB;
          a = tradeImpactForTeam (removeOutgoing Astarters outgoingA)
                (removeOutgoing Abench outgoingA) (Some outgoingB) (Some FA_all) startersByPos;
          b = tradeImpactForTeam (removeOutgoing Bstarters outgoingB)
                (removeOutgoing Bbench outgoingB) (Some outgoingA) (Some FA_all) startersByPos;
          v = verdict a b (given lossTolerance gainMinimum imbalanceLimit)
      in \<lparr>raw_a = a, raw_b = b, impact_a = toFixed 3 a, impact_b = toFixed 3 b,
          verdict_of = v\<rparr>)"

subsection \<open>The slot each player is given\<close>

text \<open>
  The loops record the players they place, not the labels. \<open>slotTrace\<close> replays the
  loop of \<open>fillSlots\<close> and pairs each player with the label it is placed under, or
  with \<open>None\<close> when it is left over; \<open>countOf\<close> reads the count of a label.
\<close>

fun slotTrace :: "'k player list \<Rightarrow> slots \<Rightarrow> ('k player \<times> string option) list" where
  "slotTrace [] need = []"
| "slotTrace (p # ps) need =
     (case firstOpen need p of
        Some (l, c) \<Rightarrow> (p, Some l) # slotTrace ps (AList.update l (c - 1) need)
      | None \<Rightarrow> (p, None) # slotTrace ps need)"

definition countOf :: "slots \<Rightarrow> string \<Rightarrow> nat" where
  "countOf need l = (case map_of need l of None \<Rightarrow> 0 | Some c \<Rightarrow> c)"

definition placedUnder :: "string \<Rightarrow> ('k player \<times> string option) list \<Rightarrow> nat" where
  "placedUnder l tr = length (filter (\<lambda>e. snd e = Some l) tr)"

definition needAfter :: "'k player list \<Rightarrow> slots \<Rightarrow> slots" where
  \<comment> \<open>the counts after the loop has gone through \<open>ps\<close>\<close>
  "needAfter ps need = snd (snd (fillSlots ps [] [] need))"

section \<open>Per-game rates\<close>

definition gamesPlayed :: "'k player \<Rightarrow> real" where
  \<comment> \<open>\<^verbatim>\<open>Number(p.gp || p.games_played || 0) || 0\<close>\<close>
  "gamesPlayed p = numberOr0 (jsOr (jsOr (gp p) (games_played p)) (JNum 0))"

text \<open>
  The callback of \<^verbatim>\<open>computePerGame\<close>. The copy \<^verbatim>\<open>out\<close> starts with an empty
  \<^verbatim>\<open>per\<close>; when the games played are not zero, every entry of \<^verbatim>\<open>p.stats\<close> gives the
  entry of \<^verbatim>\<open>per\<close> with the same key.
\<close>

definition perGame :: "'k player \<Rightarrow> 'k player" where
  "perGame p =
     (let g = gamesPlayed p;
          out = p\<lparr>per := Some []\<rparr>
      in if g = 0 then out
         else out\<lparr>per := Some (map (\<lambda>(k, v). (k, numberOr0 v / g)) (orEmpty (stats p)))\<rparr>)"

definition computePerGame :: "'k player list option \<Rightarrow> 'k player list" where
  "computePerGame players = map perGame (orEmpty players)"


section \<open>Values\<close>

text \<open>
  A category, as \<^verbatim>\<open>buildCategoryListFromSettings\<close> builds it. \<^verbatim>\<open>valuePlayers\<close>
  reads its id only, as a property key.
\<close>

record 'k category =
  cid :: 'k
  cname :: json
  position_type :: json

definition perOr0 :: "'k player \<Rightarrow> 'k \<Rightarrow> real" where
  \<comment> \<open>\<^verbatim>\<open>Number(p.per?.[id]) || 0\<close>\<close>
  "perOr0 p k =
     (case per p of
        None \<Rightarrow> 0
      | Some m \<Rightarrow> (case map_of m k of None \<Rightarrow> 0 | Some v \<Rightarrow> v))"

text \<open>
  The objects \<^verbatim>\<open>sums\<close> (here \<open>sums1\<close>), \<^verbatim>\<open>sums2\<close>, \<^verbatim>\<open>counts\<close>, \<^verbatim>\<open>mean\<close>
  and \<^verbatim>\<open>stdev\<close> are read at the ids of the categories only, where the first loop
  has stored a number: they are functions from keys to numbers. Every sum, product,
  difference and quotient is rounded to a double; the counts are small integers and
  exact. \<^verbatim>\<open>Math.sqrt\<close> is the rounded square root.
\<close>

record 'k accum =
  sums1 :: "'k \<Rightarrow> real"
  sums2 :: "'k \<Rightarrow> real"
  counts :: "'k \<Rightarrow> nat"

definition emptyAccum :: "'k accum" where
  "emptyAccum = \<lparr>sums1 = (\<lambda>k. 0), sums2 = (\<lambda>k. 0), counts = (\<lambda>k. 0)\<rparr>"

definition initAccum :: "'k category list \<Rightarrow> 'k accum" where
  "initAccum cats =
     fold (\<lambda>c a. \<lparr>sums1 = (sums1 a)(cid c := 0), sums2 = (sums2 a)(cid c := 0),
                   counts = (counts a)(cid c := 0)\<rparr>) cats emptyAccum"

definition addPlayer :: "'k category list \<Rightarrow> 'k player \<Rightarrow> 'k accum \<Rightarrow> 'k accum" where
  "addPlayer cats p acc =
     fold (\<lambda>c a. let v = perOr0 p (cid c)
                 in \<lparr>sums1 = (sums1 a)(cid c := double (sums1 a (cid c) + v)),
                     sums2 = (sums2 a)(cid c := double (sums2 a (cid c) + double (v * v))),
                     counts = (counts a)(cid c := counts a (cid c) + 1)\<rparr>) cats acc"

definition accumulate :: "'k player list \<Rightarrow> 'k category list \<Rightarrow> 'k accum" where
  "accumulate pool cats = fold (addPlayer cats) pool (initAccum cats)"

record 'k moments =
  mean :: "'k \<Rightarrow> real"
  stdev :: "'k \<Rightarrow> real"

definition sqrtOrFloor :: "real \<Rightarrow> real" where
  \<comment> \<open>\<^verbatim>\<open>Math.sqrt(variance) || 1e-9\<close>\<close>
  "sqrtOrFloor variance =
     (if double (sqrt variance) = 0 then double (1 / 10 ^ 9) else double (sqrt variance))"

definition momentsOf :: "'k accum \<Rightarrow> 'k category list \<Rightarrow> 'k moments" where
  "momentsOf acc cats =
     fold (\<lambda>c ms.
             let n = (if counts acc (cid c) = 0 then 1 else real (counts acc (cid c)));
                 m = double (sums1 acc (cid c) / n);
                 variance = max (double (double (sums2 acc (cid c) / n) - double (m * m))) 0
             in \<lparr>mean = (mean ms)(cid c := m),
                 stdev = (stdev ms)(cid c := sqrtOrFloor variance)\<rparr>)
       cats \<lparr>mean = (\<lambda>k. 0), stdev = (\<lambda>k. 0)\<rparr>"

definition rawValue :: "'k moments \<Rightarrow> 'k category list \<Rightarrow> 'k player \<Rightarrow> real" where
  \<comment> \<open>the variable \<^verbatim>\<open>val\<close> after the loop over the categories\<close>
  "rawValue ms cats p =
     fold (\<lambda>c val. double (val + double (double (perOr0 p (cid c) - mean ms (cid c))
                                          / stdev ms (cid c))))
       cats 0"

definition valuePlayers :: "'k player list \<Rightarrow> 'k category list \<Rightarrow> 'k player list" where
  \<comment> \<open>\<^verbatim>\<open>val.toFixed(4)\<close> is the decimal nearest to the double \<^verbatim>\<open>val\<close>, and \<^verbatim>\<open>Number\<close>
      of it the nearest double\<close>
  "valuePlayers pool cats =
     (let ms = momentsOf (accumulate pool cats) cats
      in map (\<lambda>p. p\<lparr>value := Some (double (toFixed 4 (rawValue ms cats p)))\<rparr>) pool)"

subsection \<open>The population mean and standard deviation\<close>

text \<open>
  The quantities the specification names: the mean of the per-game rates of a
  category over the pool, a missing rate counting as 0, the population standard deviation
  (the root of the mean squared deviation), the standard deviation with its floor, and
  the term of a player for a category.
\<close>

definition popMean :: "'k player list \<Rightarrow> 'k \<Rightarrow> real" where
  "popMean pool k = sum_list (map (\<lambda>p. perOr0 p k) pool) / real (length pool)"

definition popStdev :: "'k player list \<Rightarrow> 'k \<Rightarrow> real" where
  "popStdev pool k =
     sqrt (sum_list (map (\<lambda>p. (perOr0 p k - popMean pool k)\<^sup>2) pool) / real (length pool))"

definition flooredStdev :: "'k player list \<Rightarrow> 'k \<Rightarrow> real" where
  "flooredStdev pool k = (if popStdev pool k = 0 then 1 / 10 ^ 9 else popStdev pool k)"

definition zscore :: "'k player list \<Rightarrow> 'k \<Rightarrow> 'k player \<Rightarrow> real" where
  "zscore pool k p = (perOr0 p k - popMean pool k) / flooredStdev pool k"

section \<open>Categories from the league settings\<close>

definition property :: "json \<Rightarrow> string \<Rightarrow> json" where
  \<comment> \<open>the property \<open>k\<close> of a value that is neither \<^verbatim>\<open>null\<close> nor \<^verbatim>\<open>undefined\<close>, for the
      names the source reads (\<^verbatim>\<open>stat_categories\<close>, \<^verbatim>\<open>stats\<close>, \<^verbatim>\<open>stat\<close>,
      \<^verbatim>\<open>stat_id\<close>, \<^verbatim>\<open>name\<close>, \<^verbatim>\<open>position_type\<close>): only an object can have one\<close>
  "property x k =
     (case x of
        JObj kvs \<Rightarrow> (case map_of kvs k of None \<Rightarrow> JPrim JUndefined | Some v \<Rightarrow> v)
      | _ \<Rightarrow> JPrim JUndefined)"

definition nullish :: "json \<Rightarrow> bool" where
  "nullish x = (x = JPrim JUndefined \<or> x = JPrim JNull)"

definition getProp :: "json \<Rightarrow> string \<Rightarrow> error + json" where
  \<comment> \<open>\<^verbatim>\<open>x.k\<close>\<close>
  "getProp x k = (if nullish x then Inl TypeError else Inr (property x k))"

definition optProp :: "json \<Rightarrow> string \<Rightarrow> json" where
  \<comment> \<open>\<^verbatim>\<open>x?.k\<close>\<close>
  "optProp x k = (if nullish x then JPrim JUndefined else property x k)"

definition iterate :: "json \<Rightarrow> error + json list" where
  \<comment> \<open>the values that \<^verbatim>\<open>for (const s of x)\<close> goes through: the elements of an array, the
      characters of a string; nothing else is iterable\<close>
  "iterate x =
     (case x of
        JArr xs \<Rightarrow> Inr xs
      | JPrim (JStr cs) \<Rightarrow> Inr (map (\<lambda>c. JPrim (JStr [c])) cs)
      | _ \<Rightarrow> Inl TypeError)"

definition toLowerChar :: "char \<Rightarrow> char" where
  "toLowerChar c =
     (case map_of (zip ''ABCDEFGHIJKLMNOPQRSTUVWXYZ'' ''abcdefghijklmnopqrstuvwxyz'') c of
        None \<Rightarrow> c
      | Some l \<Rightarrow> l)"

definition toLowerCase :: "json \<Rightarrow> error + string" where
  \<comment> \<open>\<^verbatim>\<open>x.toLowerCase()\<close> for a truthy \<open>x\<close> or the empty string: only a string has the
      method\<close>
  "toLowerCase x =
     (case x of JPrim (JStr cs) \<Rightarrow> Inr (map toLowerChar cs) | _ \<Rightarrow> Inl TypeError)"

fun startsWith :: "string \<Rightarrow> string \<Rightarrow> bool" where
  "startsWith cs [] = True"
| "startsWith [] (n # ns) = False"
| "startsWith (c # cs) (n # ns) = (c = n \<and> startsWith cs ns)"

fun includesStr :: "string \<Rightarrow> string \<Rightarrow> bool" where
  \<comment> \<open>\<^verbatim>\<open>cs.includes(needle)\<close>\<close>
  "includesStr [] needle = (needle = [])"
| "includesStr (c # cs) needle = (startsWith (c # cs) needle \<or> includesStr cs needle)"

definition statsOf :: "json \<Rightarrow> json" where
  \<comment> \<open>\<^verbatim>\<open>settings?.stat_categories?.stats || settings?.stat_categories?.stat || []\<close>\<close>
  "statsOf settings =
     jsonOr (jsonOr (optProp (optProp settings ''stat_categories'') ''stats'')
                    (optProp (optProp settings ''stat_categories'') ''stat''))
            (JArr [])"

text \<open>
  The body of the loop for one descriptor \<open>s\<close>: a \<^verbatim>\<open>TypeError\<close>, or \<open>None\<close> for
  \<^verbatim>\<open>continue\<close>, or the category that is pushed. \<^verbatim>\<open>Number.isFinite(id)\<close> fails when
  \<^verbatim>\<open>Number\<close> gives \<^verbatim>\<open>NaN\<close> or an infinity.
\<close>

definition descriptor :: "json \<Rightarrow> error + real category option" where
  "descriptor s =
     (case getProp s ''stat'' of
        Inl e \<Rightarrow> Inl e
      | Inr inner \<Rightarrow>
          (let stat = jsonOr inner s
           in case getProp stat ''stat_id'' of
                Inl e \<Rightarrow> Inl e
              | Inr sid \<Rightarrow>
                  (case jsonToNumber sid of
                     Inl e \<Rightarrow> Inl e
                   | Inr None \<Rightarrow> Inr None
                   | Inr (Some i) \<Rightarrow>
                       (case toLowerCase (jsonOr (property stat ''name'') (JPrim (JStr []))) of
                          Inl e \<Rightarrow> Inl e
                        | Inr name \<Rightarrow>
                            if includesStr name ''games played'' then Inr None
                            else Inr (Some \<lparr>cid = i, cname = property stat ''name'',
                                            position_type =
                                              jsonOr (property stat ''position_type'')
                                                     (JPrim JNull)\<rparr>)))))"

fun collect :: "json list \<Rightarrow> real category list \<Rightarrow> error + real category list" where
  "collect [] cats = Inr cats"
| "collect (s # ss) cats =
     (case descriptor s of
        Inl e \<Rightarrow> Inl e
      | Inr None \<Rightarrow> collect ss cats
      | Inr (Some c) \<Rightarrow> collect ss (cats @ [c]))"

definition buildCategoryListFromSettings :: "json \<Rightarrow> error + real category list" where
  "buildCategoryListFromSettings settings =
     (case iterate (statsOf settings) of
        Inl e \<Rightarrow> Inl e
      | Inr ss \<Rightarrow> collect ss [])"

subsection \<open>The rule of the specification\<close>

text \<open>
  The unwrapped descriptor, its id and its name as the loop reads them, the descriptors
  on which the loop raises no error, and the exclusion rule in the words of the
  specification, with ``the id is missing or not numeric'' read as: \<^verbatim>\<open>Number\<close> gives no
  finite number.
\<close>

definition statOf :: "json \<Rightarrow> json" where
  \<comment> \<open>\<^verbatim>\<open>s.stat || s\<close> for a descriptor that is not \<^verbatim>\<open>null\<close>\<close>
  "statOf s = jsonOr (property s ''stat'') s"

definition idOf :: "json \<Rightarrow> json" where
  \<comment> \<open>\<^verbatim>\<open>stat.stat_id\<close>\<close>
  "idOf s = property (statOf s) ''stat_id''"

definition nameOf :: "json \<Rightarrow> json" where
  \<comment> \<open>\<^verbatim>\<open>stat.name || ""\<close>\<close>
  "nameOf s = jsonOr (property (statOf s) ''name'') (JPrim (JStr []))"

definition isString :: "json \<Rightarrow> bool" where
  "isString x = (case x of JPrim (JStr cs) \<Rightarrow> True | _ \<Rightarrow> False)"

definition stringOf :: "json \<Rightarrow> string" where
  "stringOf x = (case x of JPrim (JStr cs) \<Rightarrow> cs | _ \<Rightarrow> [])"

definition finiteId :: "json \<Rightarrow> real option" where
  \<comment> \<open>the id as a finite number, if \<^verbatim>\<open>Number\<close> gives one\<close>
  "finiteId s = (case jsonToNumber (idOf s) of Inl e \<Rightarrow> None | Inr r \<Rightarrow> r)"

definition wellShaped :: "json \<Rightarrow> bool" where
  \<comment> \<open>a descriptor that is not \<^verbatim>\<open>null\<close> or \<^verbatim>\<open>undefined\<close>, whose id has a string, and
      whose name is a string or absent\<close>
  "wellShaped s = (\<not> nullish s \<and> \<not> toStringThrows (idOf s) \<and> isString (nameOf s))"

definition excluded :: "json \<Rightarrow> bool" where
  "excluded s =
     (finiteId s = None
      \<or> includesStr (map toLowerChar (stringOf (nameOf s))) ''games played'')"

definition categoryOf :: "json \<Rightarrow> real category" where
  "categoryOf s =
     \<lparr>cid = (case finiteId s of None \<Rightarrow> 0 | Some i \<Rightarrow> i),
      cname = property (statOf s) ''name'',
      position_type = jsonOr (property (statOf s) ''position_type'') (JPrim JNull)\<rparr>"

section \<open>Examples\<close>

subsection \<open>A small league\<close>

text \<open>
  Concrete players, as \<^verbatim>\<open>normalize\<close> builds them (a goalie is a player with the
  position G), and concrete slot requirements.
\<close>

definition examplePlayer :: "string \<Rightarrow> string list \<Rightarrow> real \<Rightarrow> nat player" where
  "examplePlayer k ps v =
     \<lparr>player_key = Some k, pos = Some ps, isGoalie = (''G'' \<in> set ps), stats = None,
      gp = JUndefined, games_played = JUndefined, per = None, value = Some v\<rparr>"

definition exampleNeed :: slots where
  "exampleNeed = [(''C'', 1), (''Util'', 0), (''G'', 1)]"

definition examplePool :: "nat player list" where
  "examplePool =
     [examplePlayer ''c2'' [''C''] 1, examplePlayer ''g1'' [''G''] 2, examplePlayer ''c1'' [''C'', ''LW''] 3]"

text \<open>
  Two teams that exchange their only centre, each worth 2, with one C slot.
\<close>

definition swapA :: "nat player list" where "swapA = [examplePlayer ''a1'' [''C''] 2]"
definition swapB :: "nat player list" where "swapB = [examplePlayer ''b1'' [''C''] 2]"
definition swapNeed :: slots where "swapNeed = [(''C'', 1)]"


text \<open>
  Two teams with one centre each, one free agent, and a C and a Util slot.
\<close>

definition keyA :: "nat player list" where "keyA = [examplePlayer ''a1'' [''C''] 2]"
definition keyB :: "nat player list" where "keyB = [examplePlayer ''b1'' [''C''] 1]"
definition keyFA :: "nat player list" where "keyFA = [examplePlayer ''f1'' [''LW''] 5]"
definition keyNeed :: slots where "keyNeed = [(''C'', 1), (''Util'', 1)]"

text \<open>
  A player before \<^verbatim>\<open>computePerGame\<close>, with its games played and its raw statistics,
  one of them the dash that stands for a missing number.
\<close>

definition rawPlayer :: "jsval \<Rightarrow> (nat \<times> jsval) list \<Rightarrow> nat player" where
  "rawPlayer g st =
     \<lparr>player_key = Some ''p'', pos = Some [''C''], isGoalie = False, stats = Some st,
      gp = g, games_played = JUndefined, per = None, value = None\<rparr>"

definition exampleStats :: "(nat \<times> jsval) list" where
  "exampleStats = [(1, JNum 5), (2, JStr ''-''), (3, JStr ''7'')]"

subsection \<open>Rated players\<close>

text \<open>
  A player with its per-game rates, and the category with id 1.
\<close>

definition ratedPlayer :: "string \<Rightarrow> (nat \<times> real) list \<Rightarrow> nat player" where
  "ratedPlayer k rates =
     \<lparr>player_key = Some k, pos = Some [''C''], isGoalie = False, stats = None,
      gp = JUndefined, games_played = JUndefined, per = Some rates, value = None\<rparr>"

definition goals :: "nat category" where
  "goals = \<lparr>cid = 1, cname = JPrim (JStr ''Goals''), position_type = JPrim JNull\<rparr>"

text \<open>
  Two players whose rates for the category are 100000000 and 100000001.
\<close>

definition closePool :: "nat player list" where
  "closePool = [ratedPlayer ''q1'' [(1, 100000000)], ratedPlayer ''q2'' [(1, 100000001)]]"


subsection \<open>League settings\<close>

text \<open>
  League settings with four descriptors: a wrapped one, the games played, one with an id
  that is no number, and one without id.
\<close>

definition statGoals :: json where
  "statGoals = JObj [(''stat'', JObj [(''stat_id'', JPrim (JStr ''1'')),
                                      (''name'', JPrim (JStr ''Goals'')),
                                      (''position_type'', JPrim (JStr ''P''))])]"

definition statGames :: json where
  "statGames = JObj [(''stat'', JObj [(''stat_id'', JPrim (JNum 0)),
                                      (''name'', JPrim (JStr ''Games Played''))])]"

definition statAssists :: json where
  "statAssists = JObj [(''stat_id'', JPrim (JStr ''x'')), (''name'', JPrim (JStr ''Assists''))]"

definition statPoints :: json where
  "statPoints = JObj [(''name'', JPrim (JStr ''Points''))]"

definition exampleDescriptors :: "json list" where
  "exampleDescriptors = [statGoals, statGames, statAssists, statPoints]"

definition exampleSettings :: json where
  "exampleSettings = JObj [(''stat_categories'', JObj [(''stats'', JArr exampleDescriptors)])]"

definition settingsWith :: "json \<Rightarrow> json" where
  "settingsWith list = JObj [(''stat_categories'', JObj [(''stats'', list)])]"

definition named :: "json \<Rightarrow> json" where
  \<comment> \<open>the descriptor with the id \<open>i\<close> and the name Goals\<close>
  "named i = JObj [(''stat_id'', i), (''name'', JPrim (JStr ''Goals''))]"

section \<open>Rounding to a double\<close>

text \<open>
  The value of \<open>double\<close> at a number whose binade is known: \<open>binade\<close> finds the
  exponent, and the rounded significand is the integer nearest to the quotient by the
  spacing of the doubles there, the even one of two.
\<close>

lemma roundHalfEven_eq:
  assumes "\<bar>q - of_int m\<bar> < 1 / 2 \<or> (\<bar>q - of_int m\<bar> = 1 / 2 \<and> even m)"
  shows "roundHalfEven q = m"
proof -
  consider (a) "of_int m \<le> q" "q < of_int m + 1 / 2"
    | (b) "q < of_int m" "of_int m - 1 / 2 < q"
    | (c) "q = of_int m + 1 / 2" "even m"
    | (d) "q = of_int m - 1 / 2" "even m"
    using assms by (auto simp: abs_if split: if_splits) 
  then show ?thesis
  proof cases
    case a
    then have "\<lfloor>q\<rfloor> = m" by linarith
    with a show ?thesis by (simp add: roundHalfEven_def Let_def)
  next
    case b
    then have "\<lfloor>q\<rfloor> = m - 1" by linarith
    with b show ?thesis by (simp add: roundHalfEven_def Let_def)
  next
    case c
    then have "\<lfloor>q\<rfloor> = m" by linarith
    with c show ?thesis by (simp add: roundHalfEven_def Let_def)
  next
    case d
    then have "\<lfloor>q\<rfloor> = m - 1" by linarith
    with d show ?thesis by (simp add: roundHalfEven_def Let_def)
  qed
qed

lemma binade_up:
  "k \<le> n \<Longrightarrow> 2 ^ k \<le> a \<Longrightarrow> a < 2 ^ Suc k \<Longrightarrow> e + int k \<le> 1024
     \<Longrightarrow> binade n a e = e + int k"
proof (induction k arbitrary: n a e)
  case 0
  then show ?case by (cases n) simp_all
next
  case (Suc k)
  from Suc.prems(1) obtain n' where n: "n = Suc n'" and kn: "k \<le> n'" by (cases n) simp_all
  have "(2::real) \<le> 2 ^ Suc k" by simp
  with Suc.prems(2) have a2: "2 \<le> a" by linarith
  from Suc.prems(4) have e: "e < 1024" by simp
  from Suc.prems(2) have l: "2 ^ k \<le> a / 2" by simp
  from Suc.prems(3) have u: "a / 2 < 2 ^ Suc k" by simp
  from Suc.prems(4) have b: "(e + 1) + int k \<le> 1024" by simp
  from Suc.IH[OF kn l u b] a2 e show ?case by (simp add: n)
qed

lemma binade_down:
  "k \<le> n \<Longrightarrow> 1 \<le> a * 2 ^ k \<Longrightarrow> a * 2 ^ k < 2 \<Longrightarrow> - 1022 \<le> e - int k
     \<Longrightarrow> binade n a e = e - int k"
proof (induction k arbitrary: n a e)
  case 0
  then show ?case by (cases n) simp_all
next
  case (Suc k)
  from Suc.prems(1) obtain n' where n: "n = Suc n'" and kn: "k \<le> n'" by (cases n) simp_all
  have p: "(1::real) \<le> 2 ^ k" by simp
  from Suc.prems(3) have "a * 2 ^ k < 1" by simp
  with p have a1: "a < 1"
    by (smt (verit) mult_le_cancel_left1 mult_less_cancel_right2 zero_less_power)
  from Suc.prems(4) have e: "- 1022 < e" by simp
  from Suc.prems(2) have l: "1 \<le> (2 * a) * 2 ^ k" by (simp add: mult.commute mult.left_commute)
  from Suc.prems(3) have u: "(2 * a) * 2 ^ k < 2" by (simp add: mult.commute mult.left_commute)
  from Suc.prems(4) have b: "- 1022 \<le> (e - 1) - int k" by simp
  from Suc.IH[OF kn l u b] a1 e show ?case by (simp add: n)
qed

lemma binade_sub:
  "k \<le> n \<Longrightarrow> a * 2 ^ k < 1 \<Longrightarrow> e - int k = - 1022 \<Longrightarrow> binade n a e = - 1022"
proof (induction k arbitrary: n a e)
  case 0
  then show ?case by (cases n) simp_all
next
  case (Suc k)
  from Suc.prems(1) obtain n' where n: "n = Suc n'" and kn: "k \<le> n'" by (cases n) simp_all
  have p: "(1::real) \<le> 2 ^ Suc k" by (rule one_le_power) simp
  from Suc.prems(2) p have a1: "a < 1"
    by (smt (verit) mult_le_cancel_left1 mult_less_cancel_right2 zero_less_power)
  from Suc.prems(3) have e: "- 1022 < e" by simp
  from Suc.prems(2) have u: "(2 * a) * 2 ^ k < 1" by (simp add: mult.commute mult.left_commute)
  from Suc.prems(3) have b: "(e - 1) - int k = - 1022" by simp
  from Suc.IH[OF kn u b] a1 e show ?case by (simp add: n)
qed

lemma binade_powi:
  assumes "- 1022 \<le> e" "e \<le> 1023" "2 powi e \<le> a" "a < 2 powi (e + 1)"
  shows "binade 1100 a 0 = e"
proof (cases "0 \<le> e")
  case True
  define k where "k = nat e"
  from True have e: "e = int k" by (simp add: k_def)
  from assms(3) have l: "2 ^ k \<le> a" by (simp add: e)
  have "e + 1 = int (Suc k)" by (simp add: e)
  with assms(4) have u: "a < 2 ^ Suc k" by (metis power_int_of_nat)
  from assms(2) have "k \<le> 1100" "0 + int k \<le> 1024" by (simp_all add: e)
  from binade_up[OF this(1) l u this(2)] show ?thesis by (simp add: e)
next
  case False
  define k where "k = nat (- e)"
  from False have e: "e = - int k" and k0: "0 < k" by (simp_all add: k_def)
  have pk: "(2::real) powi e = 1 / 2 ^ k" by (simp add: e power_int_minus field_simps)
  from k0 obtain j where j: "k = Suc j" by (cases k) simp_all
  have "e + 1 = - int j" by (simp add: e j)
  then have pj: "(2::real) powi (e + 1) = 1 / 2 ^ j" by (simp add: power_int_minus field_simps)
  from assms(3) have l: "1 \<le> a * 2 ^ k" by (simp add: pk field_simps)
  from assms(4)[unfolded pj] have u: "a * 2 ^ k < 2" by (simp add: j field_simps)
  from assms(1) have "k \<le> 1100" "- 1022 \<le> 0 - int k" by (simp_all add: e)
  from binade_down[OF this(1) l u this(2)] show ?thesis by (simp add: e)
qed

lemma double_eval:
  assumes "- 1022 \<le> e" "e \<le> 1023" "2 powi e \<le> \<bar>x\<bar>" "\<bar>x\<bar> < 2 powi (e + 1)"
    and "\<bar>\<bar>x\<bar> / 2 powi (e - 52) - of_int m\<bar> < 1 / 2
         \<or> (\<bar>\<bar>x\<bar> / 2 powi (e - 52) - of_int m\<bar> = 1 / 2 \<and> even m)"
  shows "double x = sgn x * of_int m * 2 powi (e - 52)"
proof -
  have "(0::real) < 2 powi e" by simp
  with assms(3) have "0 < \<bar>x\<bar>" by linarith
  then have x: "x \<noteq> 0" by simp
  from binade_powi[OF assms(1-4)] roundHalfEven_eq[OF assms(5)] x
  show ?thesis by (simp add: double_def Let_def)
qed

lemma double_tiny:
  assumes "\<bar>x\<bar> * 2 ^ 1075 < 1"
  shows "double x = 0"
proof (cases "x = 0")
  case True
  then show ?thesis by (simp add: double_def)
next
  case False
  have s: "\<bar>x\<bar> * 2 ^ 1022 < 1"
  proof -
    have "\<bar>x\<bar> * 2 ^ 1022 \<le> \<bar>x\<bar> * 2 ^ 1075"
      by (intro mult_left_mono power_increasing) simp_all
    with assms show ?thesis by linarith
  qed
  have b: "binade 1100 \<bar>x\<bar> 0 = - 1022"
    by (rule binade_sub[of 1022, OF _ s]) simp_all
  have u: "(2::real) powi (- 1022 - 52) = 1 / 2 ^ 1074"
    by (simp add: power_int_minus field_simps)
  have q: "\<bar>x\<bar> / (1 / 2 ^ 1074) = \<bar>x\<bar> * 2 ^ 1074" by simp
  have "\<bar>x\<bar> * 2 ^ 1075 = (\<bar>x\<bar> * 2 ^ 1074) * 2" by simp
  with assms have h: "\<bar>x\<bar> * 2 ^ 1074 < 1 / 2" by linarith
  have "roundHalfEven (\<bar>x\<bar> * 2 ^ 1074) = 0"
    by (rule roundHalfEven_eq) (use h in simp)
  with False b show ?thesis by (simp add: double_def Let_def u q del: power_int_numeral)
qed

lemma double_zero: "double 0 = 0"
  by (simp add: double_def)

lemma double_at: "double c = d \<Longrightarrow> x = c \<Longrightarrow> double x = d"
  by simp

subsection \<open>Numeric strings\<close>

lemma literalValue_examples:
  "literalValue [] = Some 0"
  "literalValue ''1'' = Some 1"
  "literalValue ''7'' = Some 7"
  "literalValue ''-'' = None"
  "literalValue ''x'' = None"
  "literalValue ''1e309'' = Some (10 ^ 309)"
  "literalValue ''1e-400'' = Some (1 / 10 ^ 400)"
  by code_simp+

lemma double_small_integers: "double 1 = 1" "double 7 = 7"
proof -
  show "double 1 = 1"
    using double_eval[of 0 1 4503599627370496] by (simp add: sgn_if)
  show "double 7 = 7"
    using double_eval[of 2 7 7881299347898368] by (simp add: sgn_if)
qed

section \<open>The verdict rule\<close>

text \<open>
  C2. For all impacts and thresholds, \<^verbatim>\<open>verdict\<close> returns APPROVE exactly when both
  impacts are at least \<open>lossTol\<close>, one of them is at least \<open>gainMin\<close>, and their
  absolute difference is at most \<open>imbalanceMax\<close>; otherwise it returns REVIEW, and
  there is no third status. An absent threshold, or an absent threshold object, stands
  for the defaults -0.35, 0.25 and 1.0. The four cases of the specification classify
  as it says: (0.30, 0.10) is approved, and (0.30, -0.50), (0.10, 0.05) and
  (1.50, 0.30) are sent to review.
\<close>

theorem C2_verdict_rule:
  "(status (verdict tiA tiB (given l g i)) = APPROVE
      \<longleftrightarrow> (tiA \<ge> l \<and> tiB \<ge> l) \<and> (tiA \<ge> g \<or> tiB \<ge> g) \<and> \<bar>tiA - tiB\<bar> \<le> i)
   \<and> (status (verdict tiA tiB (given l g i)) = REVIEW
      \<longleftrightarrow> \<not> ((tiA \<ge> l \<and> tiB \<ge> l) \<and> (tiA \<ge> g \<or> tiB \<ge> g) \<and> \<bar>tiA - tiB\<bar> \<le> i))
   \<and> (status (verdict tiA tiB opts) = APPROVE \<or> status (verdict tiA tiB opts) = REVIEW)
   \<and> verdict tiA tiB None = verdict tiA tiB (given (- 0.35) 0.25 1.0)
   \<and> verdict tiA tiB (Some noThresholds) = verdict tiA tiB (given (- 0.35) 0.25 1.0)
   \<and> status (verdict 0.30 0.10 None) = APPROVE
   \<and> status (verdict 0.30 (- 0.50) None) = REVIEW
   \<and> status (verdict 0.10 0.05 None) = REVIEW
   \<and> status (verdict 1.50 0.30 None) = REVIEW"
proof -
  have rule: "status (verdict tiA tiB (given l g i)) = APPROVE
      \<longleftrightarrow> (tiA \<ge> l \<and> tiB \<ge> l) \<and> (tiA \<ge> g \<or> tiB \<ge> g) \<and> \<bar>tiA - tiB\<bar> \<le> i"
    by (simp add: verdict_def given_def orDefault_def Let_def)
  have two: "status (verdict tiA tiB opts) = APPROVE \<or> status (verdict tiA tiB opts) = REVIEW"
    by (cases "status (verdict tiA tiB opts)") simp_all
  have other: "status (verdict tiA tiB (given l g i)) = REVIEW
      \<longleftrightarrow> \<not> ((tiA \<ge> l \<and> tiB \<ge> l) \<and> (tiA \<ge> g \<or> tiB \<ge> g) \<and> \<bar>tiA - tiB\<bar> \<le> i)"
    by (simp add: verdict_def given_def orDefault_def Let_def)
  have d1: "verdict tiA tiB None = verdict tiA tiB (given (- 0.35) 0.25 1.0)"
    by (simp add: verdict_def given_def orDefault_def noThresholds_def)
  have d2: "verdict tiA tiB (Some noThresholds) = verdict tiA tiB (given (- 0.35) 0.25 1.0)"
    by (simp add: verdict_def given_def orDefault_def noThresholds_def)
  have c1: "status (verdict 0.30 0.10 None) = APPROVE"
    by (simp add: verdict_def orDefault_def noThresholds_def)
  have c2: "status (verdict 0.30 (- 0.50) None) = REVIEW"
    by (simp add: verdict_def orDefault_def noThresholds_def)
  have c3: "status (verdict 0.10 0.05 None) = REVIEW"
    by (simp add: verdict_def orDefault_def noThresholds_def)
  have c4: "status (verdict 1.50 0.30 None) = REVIEW"
    by (simp add: verdict_def orDefault_def noThresholds_def)
  from rule other two d1 d2 c1 c2 c3 c4 show ?thesis by blast
qed

section \<open>The greedy slot assignment\<close>

subsection \<open>The loop of \<^verbatim>\<open>pickStarters\<close> is the loop of \<^verbatim>\<open>tradeImpactForTeam\<close>\<close>

lemma eligibleRoster_eq: "eligibleRoster l p = eligible l p"
  by (simp add: eligibleRoster_def eligible_def split: option.split)

lemma firstOpenRoster_eq: "firstOpenRoster need p = firstOpen need p"
  by (induction need p rule: firstOpen.induct) (auto simp: eligibleRoster_eq)

lemma pickLoop_eq: "pickLoop ps st be need = fillSlots ps st be need"
  by (induction ps arbitrary: st be need) (auto simp: firstOpenRoster_eq split: option.split)


subsection \<open>The loop, its accumulators and its trace\<close>

lemma fillSlots_acc:
  "fillSlots ps ch lo need =
     (ch @ fst (fillSlots ps [] [] need), lo @ fst (snd (fillSlots ps [] [] need)),
      snd (snd (fillSlots ps [] [] need)))"
proof (induction ps arbitrary: ch lo need)
  case Nil
  then show ?case by simp
next
  case (Cons p ps)
  show ?case
  proof (cases "firstOpen need p")
    case None
    then show ?thesis
      using Cons.IH[of ch "lo @ [p]" need] Cons.IH[of "[]" "[p]" need] by simp
  next
    case (Some lc)
    obtain l c where lc: "lc = (l, c)" by (cases lc)
    show ?thesis
      using Some lc Cons.IH[of "ch @ [p]" lo "AList.update l (c - 1) need"]
        Cons.IH[of "[p]" "[]" "AList.update l (c - 1) need"] by simp
  qed
qed

lemma fillSlots_Cons_None:
  "firstOpen need p = None \<Longrightarrow>
   fillSlots (p # ps) [] [] need =
     (fst (fillSlots ps [] [] need), p # fst (snd (fillSlots ps [] [] need)),
      snd (snd (fillSlots ps [] [] need)))"
  using fillSlots_acc[of ps "[]" "[p]" need] by simp

lemma fillSlots_Cons_Some:
  "firstOpen need p = Some (l, c) \<Longrightarrow>
   fillSlots (p # ps) [] [] need =
     (p # fst (fillSlots ps [] [] (AList.update l (c - 1) need)),
      fst (snd (fillSlots ps [] [] (AList.update l (c - 1) need))),
      snd (snd (fillSlots ps [] [] (AList.update l (c - 1) need))))"
  using fillSlots_acc[of ps "[p]" "[]" "AList.update l (c - 1) need"] by simp

lemma chosen_trace:
  "fst (fillSlots ps [] [] need) = map fst (filter (\<lambda>e. snd e \<noteq> None) (slotTrace ps need))"
proof (induction ps arbitrary: need)
  case Nil
  then show ?case by simp
next
  case (Cons p ps)
  show ?case
  proof (cases "firstOpen need p")
    case None
    then show ?thesis using Cons.IH[of need] by (simp add: fillSlots_Cons_None del: fillSlots.simps)
  next
    case (Some lc)
    obtain l c where lc: "lc = (l, c)" by (cases lc)
    show ?thesis using Some lc Cons.IH[of "AList.update l (c - 1) need"]
      by (simp add: fillSlots_Cons_Some del: fillSlots.simps)
  qed
qed

lemma leftovers_trace:
  "fst (snd (fillSlots ps [] [] need)) = map fst (filter (\<lambda>e. snd e = None) (slotTrace ps need))"
proof (induction ps arbitrary: need)
  case Nil
  then show ?case by simp
next
  case (Cons p ps)
  show ?case
  proof (cases "firstOpen need p")
    case None
    then show ?thesis using Cons.IH[of need] by (simp add: fillSlots_Cons_None del: fillSlots.simps)
  next
    case (Some lc)
    obtain l c where lc: "lc = (l, c)" by (cases lc)
    show ?thesis using Some lc Cons.IH[of "AList.update l (c - 1) need"]
      by (simp add: fillSlots_Cons_Some del: fillSlots.simps)
  qed
qed

lemma map_fst_slotTrace: "map fst (slotTrace ps need) = ps"
  by (induction ps arbitrary: need) (auto split: option.split)

lemma firstOpen_Some:
  "firstOpen need p = Some (l, c) \<Longrightarrow> (l, c) \<in> set need \<and> c > 0 \<and> eligible l p"
  by (induction need p rule: firstOpen.induct) (auto split: if_splits)

lemma countOf_update:
  "countOf (AList.update l v need) k = (if k = l then v else countOf need k)"
  by (simp add: countOf_def update_conv')

lemma placed_count:
  "distinct (map fst need) \<Longrightarrow>
   placedUnder k (slotTrace ps need) + countOf (needAfter ps need) k = countOf need k"
proof (induction ps arbitrary: need)
  case Nil
  then show ?case by (simp add: placedUnder_def needAfter_def)
next
  case (Cons p ps)
  show ?case
  proof (cases "firstOpen need p")
    case None
    then show ?thesis using Cons.IH[OF Cons.prems]
      by (simp add: placedUnder_def needAfter_def fillSlots_Cons_None del: fillSlots.simps)
  next
    case (Some lc)
    obtain l c where lc: "lc = (l, c)" by (cases lc)
    from Some lc have fo: "firstOpen need p = Some (l, c)" by simp
    from firstOpen_Some[OF fo] have mem: "(l, c) \<in> set need" and pos: "c > 0" by auto
    from mem Cons.prems have look: "map_of need l = Some c" by simp
    have d: "distinct (map fst (AList.update l (c - 1) need))"
      using Cons.prems by (simp add: distinct_update)
    from look have cl: "countOf need l = c" by (simp add: countOf_def)
    show ?thesis using fo cl pos Cons.IH[OF d]
      by (auto simp add: placedUnder_def needAfter_def fillSlots_Cons_Some countOf_update
          simp del: fillSlots.simps)
  qed
qed

lemma needAfter_Nil: "needAfter [] need = need"
  by (simp add: needAfter_def)

lemma needAfter_Cons:
  "needAfter (p # ps) need =
     (case firstOpen need p of
        Some (l, c) \<Rightarrow> needAfter ps (AList.update l (c - 1) need)
      | None \<Rightarrow> needAfter ps need)"
  by (auto simp: needAfter_def fillSlots_Cons_None fillSlots_Cons_Some
      simp del: fillSlots.simps split: option.split)

lemma needAfter_append: "needAfter (ps @ qs) need = needAfter qs (needAfter ps need)"
  by (induction ps arbitrary: need) (auto simp: needAfter_Nil needAfter_Cons split: option.split)

lemma slotTrace_append:
  "slotTrace (ps @ qs) need = slotTrace ps need @ slotTrace qs (needAfter ps need)"
  by (induction ps arbitrary: need) (auto simp: needAfter_Nil needAfter_Cons split: option.split)

lemma slotTrace_nth:
  assumes "i < length ps"
  shows "slotTrace ps need ! i
           = (ps ! i, map_option fst (firstOpen (needAfter (take i ps) need) (ps ! i)))"
proof -
  from assms have ps: "ps = take i ps @ (ps ! i) # drop (Suc i) ps"
    by (simp add: id_take_nth_drop)
  have len: "length (slotTrace (take i ps) need) = i"
    using assms by (metis length_map length_take map_fst_slotTrace min.absorb2 less_imp_le)
  have "slotTrace ps need ! i =
        slotTrace (take i ps @ (ps ! i) # drop (Suc i) ps) need ! i"
    using ps by simp
  also have "\<dots> = (slotTrace (take i ps) need
          @ slotTrace ((ps ! i) # drop (Suc i) ps) (needAfter (take i ps) need)) ! i"
    by (simp only: slotTrace_append)
  also have "\<dots> = slotTrace ((ps ! i) # drop (Suc i) ps) (needAfter (take i ps) need) ! 0"
    using len by (simp add: nth_append)
  also have "\<dots> = (ps ! i, map_option fst (firstOpen (needAfter (take i ps) need) (ps ! i)))"
    by (auto split: option.split)
  finally show ?thesis .
qed

lemma needAfter_snoc:
  "needAfter (ps @ [p]) need =
     (case firstOpen (needAfter ps need) p of
        Some (l, c) \<Rightarrow> AList.update l (c - 1) (needAfter ps need)
      | None \<Rightarrow> needAfter ps need)"
  by (simp add: needAfter_append needAfter_Cons needAfter_Nil split: option.split)

subsection \<open>The first open slot\<close>

lemma firstOpen_None: "firstOpen need p = None \<longleftrightarrow> (\<forall>(l, c) \<in> set need. \<not> (eligible l p \<and> c > 0))"
  by (induction need p rule: firstOpen.induct) auto

lemma firstOpen_first:
  "firstOpen need p = Some (l, c) \<longleftrightarrow>
     (\<exists>i < length need. need ! i = (l, c) \<and> eligible l p \<and> c > 0
        \<and> (\<forall>j < i. \<not> (eligible (fst (need ! j)) p \<and> snd (need ! j) > 0)))"
proof (induction need p rule: firstOpen.induct)
  case (1 p)
  then show ?case by simp
next
  case (2 l' c' es p)
  show ?case
  proof (cases "eligible l' p \<and> c' > 0")
    case True
    have "(\<exists>i < length ((l', c') # es). ((l', c') # es) ! i = (l, c) \<and> eligible l p \<and> c > 0
        \<and> (\<forall>j < i. \<not> (eligible (fst (((l', c') # es) ! j)) p \<and> snd (((l', c') # es) ! j) > 0)))
        \<longleftrightarrow> (l', c') = (l, c)"
    proof
      assume "\<exists>i < length ((l', c') # es). ((l', c') # es) ! i = (l, c) \<and> eligible l p \<and> c > 0
        \<and> (\<forall>j < i. \<not> (eligible (fst (((l', c') # es) ! j)) p \<and> snd (((l', c') # es) ! j) > 0))"
      then obtain i where i: "i < length ((l', c') # es)" "((l', c') # es) ! i = (l, c)"
        "\<forall>j < i. \<not> (eligible (fst (((l', c') # es) ! j)) p \<and> snd (((l', c') # es) ! j) > 0)"
        by blast
      have "i = 0"
      proof (rule ccontr)
        assume "i \<noteq> 0"
        then have "0 < i" by simp
        with i(3) have "\<not> (eligible (fst (((l', c') # es) ! 0)) p \<and> snd (((l', c') # es) ! 0) > 0)"
          by blast
        with True show False by simp
      qed
      with i(2) show "(l', c') = (l, c)" by simp
    next
      assume eq: "(l', c') = (l, c)"
      show "\<exists>i < length ((l', c') # es). ((l', c') # es) ! i = (l, c) \<and> eligible l p \<and> c > 0
        \<and> (\<forall>j < i. \<not> (eligible (fst (((l', c') # es) ! j)) p \<and> snd (((l', c') # es) ! j) > 0))"
        using True eq by (intro exI[of _ 0]) auto
    qed
    with True show ?thesis by auto
  next
    case False
    have "(\<exists>i < length ((l', c') # es). ((l', c') # es) ! i = (l, c) \<and> eligible l p \<and> c > 0
        \<and> (\<forall>j < i. \<not> (eligible (fst (((l', c') # es) ! j)) p \<and> snd (((l', c') # es) ! j) > 0)))
        \<longleftrightarrow> (\<exists>i < length es. es ! i = (l, c) \<and> eligible l p \<and> c > 0
        \<and> (\<forall>j < i. \<not> (eligible (fst (es ! j)) p \<and> snd (es ! j) > 0)))" (is "?L \<longleftrightarrow> ?R")
    proof
      assume ?L
      then obtain i where i: "i < length ((l', c') # es)" "((l', c') # es) ! i = (l, c)"
        "eligible l p" "c > 0"
        "\<forall>j < i. \<not> (eligible (fst (((l', c') # es) ! j)) p \<and> snd (((l', c') # es) ! j) > 0)"
        by blast
      from i(2,3,4) False have "i \<noteq> 0" by (cases i) auto
      then obtain k where k: "i = Suc k" by (cases i) auto
      have "\<forall>j < k. \<not> (eligible (fst (es ! j)) p \<and> snd (es ! j) > 0)"
      proof (intro allI impI)
        fix j assume "j < k"
        then have "Suc j < i" using k by simp
        with i(5) have "\<not> (eligible (fst (((l', c') # es) ! Suc j)) p \<and> snd (((l', c') # es) ! Suc j) > 0)"
          by blast
        then show "\<not> (eligible (fst (es ! j)) p \<and> snd (es ! j) > 0)" by simp
      qed
      with i k show ?R by (intro exI[of _ k]) auto
    next
      assume ?R
      then obtain k where k: "k < length es" "es ! k = (l, c)" "eligible l p" "c > 0"
        "\<forall>j < k. \<not> (eligible (fst (es ! j)) p \<and> snd (es ! j) > 0)"
        by blast
      have "\<forall>j < Suc k. \<not> (eligible (fst (((l', c') # es) ! j)) p \<and> snd (((l', c') # es) ! j) > 0)"
      proof (intro allI impI)
        fix j assume j: "j < Suc k"
        show "\<not> (eligible (fst (((l', c') # es) ! j)) p \<and> snd (((l', c') # es) ! j) > 0)"
        proof (cases j)
          case 0
          with False show ?thesis by simp
        next
          case (Suc m)
          with j have "m < k" by simp
          with k(5) Suc show ?thesis by simp
        qed
      qed
      with k show ?L by (intro exI[of _ "Suc k"]) auto
    qed
    with False "2.IH" show ?thesis by auto
  qed
qed

subsection \<open>The order of processing\<close>

lemma sortByValue_sorted:
  "sorted_wrt (\<lambda>a b. valueOr0 a \<ge> valueOr0 b) (sortByValue ps)"
proof -
  have "sorted (map (\<lambda>p. - valueOr0 p) (sortByValue ps))"
    by (simp add: sortByValue_def)
  then show ?thesis
    by (simp add: sorted_wrt_map)
qed

lemma sortByValue_mset: "mset (sortByValue ps) = mset ps"
  by (simp add: sortByValue_def)

lemma sortByValue_stable:
  "filter (\<lambda>p. valueOr0 p = v) (sortByValue ps) = filter (\<lambda>p. valueOr0 p = v) ps"
  using sort_key_stable[of "\<lambda>p. - valueOr0 p" "- v" ps] by (simp add: sortByValue_def)

lemma pickStarters_fillSlots:
  "pickStarters need pool =
     (fst (fillSlots (sortByValue pool) [] [] need), fst (snd (fillSlots (sortByValue pool) [] [] need)))"
  by (simp add: pickStarters_def pickLoop_eq split: prod.split)

lemma keys_update_firstOpen:
  "firstOpen need p = Some (l, c) \<Longrightarrow> map fst (AList.update l v need) = map fst need"
  using firstOpen_Some[of need p l c] by (force simp: update_keys)

lemma keys_needAfter: "map fst (needAfter ps need) = map fst need"
proof (induction ps arbitrary: need)
  case Nil
  then show ?case by (simp add: needAfter_Nil)
next
  case (Cons p ps)
  then show ?case
    by (auto simp: needAfter_Cons keys_update_firstOpen split: option.split)
qed

lemma mset_map_filter_split:
  "mset (map f (filter P xs)) + mset (map f (filter (\<lambda>x. \<not> P x) xs)) = mset (map f xs)"
  by (induction xs) auto

lemma trace_split_mset:
  "mset (map fst (filter (\<lambda>e. snd e \<noteq> None) (slotTrace ps need)))
     + mset (map fst (filter (\<lambda>e. snd e = None) (slotTrace ps need))) = mset ps"
  using mset_map_filter_split[of fst "\<lambda>e. snd e \<noteq> None" "slotTrace ps need"]
  by (simp add: map_fst_slotTrace)

lemma firstOpen_None_nth:
  "firstOpen need p = None \<longleftrightarrow>
     (\<forall>k < length need. \<not> (eligible (fst (need ! k)) p \<and> snd (need ! k) > 0))"
proof -
  have "(\<forall>(l, c) \<in> set need. \<not> (eligible l p \<and> c > 0))
      \<longleftrightarrow> (\<forall>k < length need. \<not> (eligible (fst (need ! k)) p \<and> snd (need ! k) > 0))"
  proof
    assume h: "\<forall>(l, c) \<in> set need. \<not> (eligible l p \<and> c > 0)"
    show "\<forall>k < length need. \<not> (eligible (fst (need ! k)) p \<and> snd (need ! k) > 0)"
    proof (intro allI impI)
      fix k assume "k < length need"
      then have "need ! k \<in> set need" by simp
      with h show "\<not> (eligible (fst (need ! k)) p \<and> snd (need ! k) > 0)"
        by (cases "need ! k") auto
    qed
  next
    assume h: "\<forall>k < length need. \<not> (eligible (fst (need ! k)) p \<and> snd (need ! k) > 0)"
    show "\<forall>(l, c) \<in> set need. \<not> (eligible l p \<and> c > 0)"
    proof (clarify)
      fix l c assume m: "(l, c) \<in> set need" and e: "eligible l p" and c: "c > 0"
      from m obtain k where "k < length need" "need ! k = (l, c)" by (auto simp: in_set_conv_nth)
      with h e c show False by auto
    qed
  qed
  then show ?thesis by (simp only: firstOpen_None)
qed

lemma firstOpen_countOf:
  "distinct (map fst need) \<Longrightarrow> firstOpen need p = Some (l, c) \<Longrightarrow> countOf need l = c"
proof -
  assume d: "distinct (map fst need)" and f: "firstOpen need p = Some (l, c)"
  from firstOpen_Some[OF f] have "(l, c) \<in> set need" by simp
  with d have "map_of need l = Some c" by simp
  then show ?thesis by (simp add: countOf_def)
qed

lemma distinct_needAfter: "distinct (map fst need) \<Longrightarrow> distinct (map fst (needAfter ps need))"
  by (simp add: keys_needAfter)

lemma eligible_other:
  "l \<noteq> ''Util'' \<Longrightarrow> l \<noteq> ''G'' \<Longrightarrow> eligible l p = (l \<in> set (orEmpty (pos p)))"
  by (simp add: eligible_def orEmpty_def)

lemma examplePool_sorted:
  "sortByValue examplePool =
     [examplePlayer ''c1'' [''C'', ''LW''] 3, examplePlayer ''g1'' [''G''] 2, examplePlayer ''c2'' [''C''] 1]"
  by (simp add: sortByValue_def examplePool_def examplePlayer_def valueOr0_def)

lemma examplePool_trace:
  "slotTrace (sortByValue examplePool) exampleNeed =
     [(examplePlayer ''c1'' [''C'', ''LW''] 3, Some ''C''), (examplePlayer ''g1'' [''G''] 2, Some ''G''),
      (examplePlayer ''c2'' [''C''] 1, None)]"
  by (simp add: examplePool_sorted exampleNeed_def)
     (simp add: examplePlayer_def eligible_def)


text \<open>
  C3. For every pool and all slot requirements, the roster split puts every player of the
  pool in exactly one of starters and bench: as multisets, starters and bench together are
  the pool, so a pool without repetition gives starters and bench that are disjoint and
  without repetition. The starters are the players that the trace gives a label, and
  for every label the number of starters placed under it is at most its configured
  count (the requirements being an object, its labels are distinct). The loop of
  \<^verbatim>\<open>tradeImpactForTeam\<close> computes the same split.
\<close>

theorem C3_roster_split:
  fixes pool :: "'k player list"
  shows
  "(let starters = fst (pickStarters need pool);
        bench = snd (pickStarters need pool);
        tr = slotTrace (sortByValue pool) need
    in mset starters + mset bench = mset pool
     \<and> set starters \<union> set bench = set pool
     \<and> (distinct pool \<longrightarrow> distinct (starters @ bench) \<and> set starters \<inter> set bench = {})
     \<and> starters = map fst (filter (\<lambda>e. snd e \<noteq> None) tr)
     \<and> bench = map fst (filter (\<lambda>e. snd e = None) tr)
     \<and> (distinct (map fst need) \<longrightarrow> (\<forall>l. placedUnder l tr \<le> countOf need l))
     \<and> fillSlots (sortByValue pool) [] [] need
         = (starters, bench, needAfter (sortByValue pool) need))"
proof -
  define starters where "starters = fst (pickStarters need pool)"
  define bench where "bench = snd (pickStarters need pool)"
  define tr where "tr = slotTrace (sortByValue pool) need"
  have s: "starters = map fst (filter (\<lambda>e. snd e \<noteq> None) tr)"
    by (simp add: starters_def tr_def pickStarters_fillSlots chosen_trace)
  have b: "bench = map fst (filter (\<lambda>e. snd e = None) tr)"
    by (simp add: bench_def tr_def pickStarters_fillSlots leftovers_trace)
  have m: "mset starters + mset bench = mset pool"
    unfolding s b tr_def by (simp only: trace_split_mset sortByValue_mset)
  have u: "set starters \<union> set bench = set pool"
  proof -
    have "set_mset (mset starters + mset bench) = set_mset (mset pool)" using m by simp
    then show ?thesis by simp
  qed
  have d: "distinct (starters @ bench) \<and> set starters \<inter> set bench = {}" if "distinct pool"
  proof -
    have "mset (starters @ bench) = mset pool" using m by simp
    with that have "distinct (starters @ bench)" by (metis mset_eq_imp_distinct_iff)
    then show ?thesis by simp
  qed
  have c: "\<forall>l. placedUnder l tr \<le> countOf need l" if "distinct (map fst need)"
  proof
    fix l
    from placed_count[OF that, of l "sortByValue pool"]
    show "placedUnder l tr \<le> countOf need l" by (simp add: tr_def)
  qed
  have f: "fillSlots (sortByValue pool) [] [] need
         = (starters, bench, needAfter (sortByValue pool) need)"
    by (simp add: starters_def bench_def pickStarters_fillSlots needAfter_def)
  from s b m u d c f show ?thesis
    unfolding Let_def starters_def bench_def tr_def by blast
qed

theorem C3_roster_split_witness:
  "distinct examplePool \<and> distinct (map fst exampleNeed)
   \<and> fst (pickStarters exampleNeed examplePool)
       = [examplePlayer ''c1'' [''C'', ''LW''] 3, examplePlayer ''g1'' [''G''] 2]
   \<and> snd (pickStarters exampleNeed examplePool) = [examplePlayer ''c2'' [''C''] 1]
   \<and> set (fst (pickStarters exampleNeed examplePool))
       \<inter> set (snd (pickStarters exampleNeed examplePool)) = {}
   \<and> placedUnder ''C'' (slotTrace (sortByValue examplePool) exampleNeed) = 1
   \<and> placedUnder ''C'' (slotTrace (sortByValue examplePool) exampleNeed) \<le> countOf exampleNeed ''C''"
proof -
  have d1: "distinct examplePool"
    by (simp add: examplePool_def examplePlayer_def)
  have d2: "distinct (map fst exampleNeed)"
    by (simp add: exampleNeed_def)
  have p: "placedUnder ''C'' (slotTrace (sortByValue examplePool) exampleNeed) = 1"
    by (simp add: examplePool_trace placedUnder_def)
  note th = C3_roster_split[of exampleNeed examplePool, unfolded Let_def]
  from th have s: "fst (pickStarters exampleNeed examplePool)
       = [examplePlayer ''c1'' [''C'', ''LW''] 3, examplePlayer ''g1'' [''G''] 2]"
    by (simp add: examplePool_trace)
  from th have b: "snd (pickStarters exampleNeed examplePool) = [examplePlayer ''c2'' [''C''] 1]"
    by (simp add: examplePool_trace)
  from th d1 have i: "set (fst (pickStarters exampleNeed examplePool))
       \<inter> set (snd (pickStarters exampleNeed examplePool)) = {}"
    by blast
  from th d2 have c: "placedUnder ''C'' (slotTrace (sortByValue examplePool) exampleNeed)
       \<le> countOf exampleNeed ''C''"
    by blast
  from d1 d2 s b i p c show ?thesis by blast
qed

text \<open>
  C4. The pool is processed in descending order of value. The player at position \<open>i\<close>
  of that order meets the counts left by the players before it, and is placed under the
  first label, in the fixed order of the requirements, whose count is positive and for
  which it is eligible: for Util a player that is not a goalie, for G a goalie, for any
  other label a player that has the label among its positions. On placement the count
  of that label goes down by one and every other count stays; the trace has one entry
  for the player, so no further slot is taken. A player with no such label goes to the
  bench (the leftovers), and the counts stay.
\<close>

theorem C4_greedy_placement:
  fixes pool :: "'k player list"
  assumes "i < length pool"
  shows
  "(let sorted = sortByValue pool; p = sorted ! i; open = needAfter (take i sorted) need
    in sorted_wrt (\<lambda>a b. valueOr0 a \<ge> valueOr0 b) sorted
     \<and> mset sorted = mset pool
     \<and> map fst (slotTrace sorted need) = sorted
     \<and> slotTrace sorted need ! i = (p, map_option fst (firstOpen open p))
     \<and> map fst open = map fst need
     \<and> (\<forall>l c. firstOpen open p = Some (l, c) \<longleftrightarrow>
           (\<exists>k < length open. open ! k = (l, c) \<and> eligible l p \<and> c > 0
              \<and> (\<forall>j < k. \<not> (eligible (fst (open ! j)) p \<and> snd (open ! j) > 0))))
     \<and> (firstOpen open p = None \<longleftrightarrow>
           (\<forall>k < length open. \<not> (eligible (fst (open ! k)) p \<and> snd (open ! k) > 0)))
     \<and> needAfter (take (Suc i) sorted) need
          = (case firstOpen open p of
               Some (l, c) \<Rightarrow> AList.update l (c - 1) open
             | None \<Rightarrow> open)
     \<and> (\<forall>l c k. countOf (AList.update l (c - 1) open) k
                   = (if k = l then c - 1 else countOf open k))
     \<and> (\<forall>l c. distinct (map fst need) \<and> firstOpen open p = Some (l, c) \<longrightarrow> countOf open l = c)
     \<and> eligible ''Util'' p = (\<not> isGoalie p)
     \<and> eligible ''G'' p = isGoalie p
     \<and> (\<forall>l. l \<noteq> ''Util'' \<and> l \<noteq> ''G'' \<longrightarrow> eligible l p = (l \<in> set (orEmpty (pos p))))
     \<and> firstOpenRoster open p = firstOpen open p
     \<and> fst (pickStarters need pool) = map fst (filter (\<lambda>e. snd e \<noteq> None) (slotTrace sorted need))
     \<and> snd (pickStarters need pool) = map fst (filter (\<lambda>e. snd e = None) (slotTrace sorted need))
     \<and> fillSlots sorted [] [] need
          = (fst (pickStarters need pool), snd (pickStarters need pool), needAfter sorted need))"
proof -
  define sorted where "sorted = sortByValue pool"
  define p where "p = sorted ! i"
  define opn where "opn = needAfter (take i sorted) need"
  have len: "i < length sorted"
    using assms by (simp add: sorted_def sortByValue_def)
  have a1: "sorted_wrt (\<lambda>a b. valueOr0 a \<ge> valueOr0 b) sorted"
    by (simp add: sorted_def sortByValue_sorted)
  have a2: "mset sorted = mset pool"
    by (simp add: sorted_def sortByValue_mset)
  have a3: "map fst (slotTrace sorted need) = sorted"
    by (rule map_fst_slotTrace)
  have a4: "slotTrace sorted need ! i = (p, map_option fst (firstOpen opn p))"
    unfolding p_def opn_def by (rule slotTrace_nth[OF len])
  have a5: "map fst opn = map fst need"
    by (simp add: opn_def keys_needAfter)
  have a6: "\<forall>l c. firstOpen opn p = Some (l, c) \<longleftrightarrow>
           (\<exists>k < length opn. opn ! k = (l, c) \<and> eligible l p \<and> c > 0
              \<and> (\<forall>j < k. \<not> (eligible (fst (opn ! j)) p \<and> snd (opn ! j) > 0)))"
    by (intro allI) (rule firstOpen_first)
  have a7: "firstOpen opn p = None \<longleftrightarrow>
           (\<forall>k < length opn. \<not> (eligible (fst (opn ! k)) p \<and> snd (opn ! k) > 0))"
    by (rule firstOpen_None_nth)
  have tk: "take (Suc i) sorted = take i sorted @ [p]"
    using len by (simp add: p_def take_Suc_conv_app_nth)
  have a8: "needAfter (take (Suc i) sorted) need
          = (case firstOpen opn p of
               Some (l, c) \<Rightarrow> AList.update l (c - 1) opn
             | None \<Rightarrow> opn)"
    unfolding tk opn_def by (rule needAfter_snoc)
  have a9: "\<forall>l c k. countOf (AList.update l (c - 1) opn) k
                   = (if k = l then c - 1 else countOf opn k)"
    by (simp add: countOf_update)
  have a10: "\<forall>l c. distinct (map fst need) \<and> firstOpen opn p = Some (l, c) \<longrightarrow> countOf opn l = c"
    using firstOpen_countOf[of opn p] a5 by auto
  have a11: "eligible ''Util'' p = (\<not> isGoalie p)" by (simp add: eligible_def)
  have a12: "eligible ''G'' p = isGoalie p" by (simp add: eligible_def)
  have a13: "\<forall>l. l \<noteq> ''Util'' \<and> l \<noteq> ''G'' \<longrightarrow> eligible l p = (l \<in> set (orEmpty (pos p)))"
    by (simp add: eligible_other)
  have a14: "firstOpenRoster opn p = firstOpen opn p" by (rule firstOpenRoster_eq)
  have a15: "fst (pickStarters need pool)
      = map fst (filter (\<lambda>e. snd e \<noteq> None) (slotTrace sorted need))"
    by (simp add: sorted_def pickStarters_fillSlots chosen_trace)
  have a16: "snd (pickStarters need pool)
      = map fst (filter (\<lambda>e. snd e = None) (slotTrace sorted need))"
    by (simp add: sorted_def pickStarters_fillSlots leftovers_trace)
  have a17: "fillSlots sorted [] [] need
          = (fst (pickStarters need pool), snd (pickStarters need pool), needAfter sorted need)"
    by (simp add: sorted_def pickStarters_fillSlots needAfter_def)
  from a1 a2 a3 a4 a5 a6 a7 a8 a9 a10 a11 a12 a13 a14 a15 a16 a17
  show ?thesis
    unfolding Let_def sorted_def[symmetric] p_def[symmetric] opn_def[symmetric]
    by (intro conjI)
qed

theorem C4_greedy_placement_witness:
  "(1::nat) < length examplePool
   \<and> sortByValue examplePool ! 1 = examplePlayer ''g1'' [''G''] 2
   \<and> needAfter (take 1 (sortByValue examplePool)) exampleNeed = [(''C'', 0), (''Util'', 0), (''G'', 1)]
   \<and> slotTrace (sortByValue examplePool) exampleNeed ! 1 = (examplePlayer ''g1'' [''G''] 2, Some ''G'')
   \<and> needAfter (take (Suc 1) (sortByValue examplePool)) exampleNeed
       = [(''C'', 0), (''Util'', 0), (''G'', 0)]"
proof -
  have l: "(1::nat) < length examplePool" by (simp add: examplePool_def)
  have p: "sortByValue examplePool ! 1 = examplePlayer ''g1'' [''G''] 2"
    by (simp add: examplePool_sorted)
  have n: "needAfter (take 1 (sortByValue examplePool)) exampleNeed
      = [(''C'', 0), (''Util'', 0), (''G'', 1)]"
    by (simp add: examplePool_sorted needAfter_def exampleNeed_def)
       (simp add: examplePlayer_def eligible_def)
  have f: "firstOpen [(''C'', 0), (''Util'', 0), (''G'', 1)] (examplePlayer ''g1'' [''G''] 2)
      = Some (''G'', 1)"
    by (simp add: examplePlayer_def eligible_def)
  note th = C4_greedy_placement[OF l, of exampleNeed, unfolded Let_def p n f]
  from th have t: "slotTrace (sortByValue examplePool) exampleNeed ! 1
      = (examplePlayer ''g1'' [''G''] 2, Some ''G'')" by simp
  from th have u: "needAfter (take (Suc 1) (sortByValue examplePool)) exampleNeed
       = [(''C'', 0), (''Util'', 0), (''G'', 0)]" by simp
  from l p n t u show ?thesis by blast
qed

section \<open>The trade impact\<close>

lemma sumValues_sum_list: "sumValues ps = sum_list (map valueOr0 ps)"
proof -
  have "foldl (\<lambda>acc p. acc + valueOr0 p) a ps = a + sum_list (map valueOr0 ps)" for a
    by (induction ps arbitrary: a) (auto simp: algebra_simps)
  from this[of 0] show ?thesis by (simp add: sumValues_def)
qed

lemma backfill_extends:
  "\<exists>extra. fst (backfill ps chosen need) = chosen @ extra \<and> set extra \<subseteq> set ps"
proof (induction ps arbitrary: chosen need)
  case Nil
  then show ?case by simp
next
  case (Cons p ps)
  show ?case
  proof (cases "firstOpen need p")
    case None
    show ?thesis
    proof (cases "anyOpen need")
      case True
      from Cons.IH[of chosen need] obtain extra where
        "fst (backfill ps chosen need) = chosen @ extra" "set extra \<subseteq> set ps" by blast
      with None True show ?thesis by auto
    next
      case False
      with None show ?thesis by simp
    qed
  next
    case (Some lc)
    obtain l c where lc: "lc = (l, c)" by (cases lc)
    show ?thesis
    proof (cases "anyOpen (AList.update l (c - 1) need)")
      case True
      from Cons.IH[of "chosen @ [p]" "AList.update l (c - 1) need"] obtain extra where
        e: "fst (backfill ps (chosen @ [p]) (AList.update l (c - 1) need)) = (chosen @ [p]) @ extra"
        "set extra \<subseteq> set ps" by blast
      have "fst (backfill (p # ps) chosen need) = chosen @ (p # extra)"
        using Some lc True e(1) by (simp add: Let_def)
      moreover have "set (p # extra) \<subseteq> set (p # ps)" using e(2) by auto
      ultimately show ?thesis by blast
    next
      case False
      have "fst (backfill (p # ps) chosen need) = chosen @ [p]"
        using Some lc False by (simp add: Let_def)
      moreover have "set [p] \<subseteq> set (p # ps)" by simp
      ultimately show ?thesis by blast
    qed
  qed
qed

lemma chosenLineup_extends:
  "\<exists>extra. chosenLineup starters bench incoming freeAgents need
       = fst (fillSlots (sortByValue (starters @ bench @ orEmpty incoming)) [] [] need) @ extra
     \<and> set extra \<subseteq> set (orEmpty freeAgents)"
proof -
  obtain ch lo n where f: "fillSlots (sortByValue (starters @ bench @ orEmpty incoming)) [] [] need = (ch, lo, n)"
    by (cases "fillSlots (sortByValue (starters @ bench @ orEmpty incoming)) [] [] need") auto
  show ?thesis
  proof (cases "anyOpen n")
    case True
    from backfill_extends[of "sortByValue (orEmpty freeAgents)" ch n] obtain extra where
      "fst (backfill (sortByValue (orEmpty freeAgents)) ch n) = ch @ extra"
      "set extra \<subseteq> set (sortByValue (orEmpty freeAgents))" by blast
    then show ?thesis using f True
      by (auto simp: chosenLineup_def Let_def sortByValue_def)
  next
    case False
    then show ?thesis using f by (auto simp: chosenLineup_def Let_def)
  qed
qed

lemmas ev_defs = evaluate_def pickStarters_def sortByValue_def outgoing_def byKey_def getByKey_def
  List.map_filter_def removeOutgoing_def tradeImpactForTeam_def chosenLineup_def orEmpty_def
  sumValues_def valueOr0_def eligible_def eligibleRoster_def keyString_def anyOpen_def
  examplePlayer_def objectPrototypeKeys_def inheritedMember_def Let_def


text \<open>
  C1, as the code has it. The impact that \<^verbatim>\<open>tradeImpactForTeam\<close> returns is strength
  minus baseline, where strength is the sum of the values of the chosen lineup (the
  greedy pass over starters, bench and incoming players, then the free agents that the
  backfill appends) and baseline is the sum of the values of the starters it is given.
  The handler gives it, for each team, the starters of the initial roster split with the
  outgoing players removed: the baseline is the value of the pre-trade starters that stay,
  not of the whole pre-trade lineup.
\<close>

theorem C1_impact_amended:
  "tradeImpactForTeam starters bench incoming freeAgents need
      = sum_list (map valueOr0 (chosenLineup starters bench incoming freeAgents need))
        - sum_list (map valueOr0 starters)
   \<and> (\<exists>extra. chosenLineup starters bench incoming freeAgents need
          = fst (fillSlots (sortByValue (starters @ bench @ orEmpty incoming)) [] [] need) @ extra
        \<and> set extra \<subseteq> set (orEmpty freeAgents))
   \<and> raw_a (evaluate A_all B_all FA_all need sendA sendB l g i)
      = tradeImpactForTeam
          (removeOutgoing (fst (pickStarters need A_all)) (outgoing A_all sendA))
          (removeOutgoing (snd (pickStarters need A_all)) (outgoing A_all sendA))
          (Some (outgoing B_all sendB)) (Some FA_all) need
   \<and> raw_b (evaluate A_all B_all FA_all need sendA sendB l g i)
      = tradeImpactForTeam
          (removeOutgoing (fst (pickStarters need B_all)) (outgoing B_all sendB))
          (removeOutgoing (snd (pickStarters need B_all)) (outgoing B_all sendB))
          (Some (outgoing A_all sendA)) (Some FA_all) need"
proof -
  have 1: "tradeImpactForTeam starters bench incoming freeAgents need
      = sum_list (map valueOr0 (chosenLineup starters bench incoming freeAgents need))
        - sum_list (map valueOr0 starters)"
    by (simp add: tradeImpactForTeam_def Let_def sumValues_sum_list)
  have 3: "raw_a (evaluate A_all B_all FA_all need sendA sendB l g i)
      = tradeImpactForTeam
          (removeOutgoing (fst (pickStarters need A_all)) (outgoing A_all sendA))
          (removeOutgoing (snd (pickStarters need A_all)) (outgoing A_all sendA))
          (Some (outgoing B_all sendB)) (Some FA_all) need"
    by (simp add: evaluate_def Let_def split: prod.split)
  have 4: "raw_b (evaluate A_all B_all FA_all need sendA sendB l g i)
      = tradeImpactForTeam
          (removeOutgoing (fst (pickStarters need B_all)) (outgoing B_all sendB))
          (removeOutgoing (snd (pickStarters need B_all)) (outgoing B_all sendB))
          (Some (outgoing A_all sendA)) (Some FA_all) need"
    by (simp add: evaluate_def Let_def split: prod.split)
  from 1 chosenLineup_extends[of starters bench incoming freeAgents need] 3 4
  show ?thesis by blast
qed


text \<open>
  The claim as written fails: when each team sends its only starter, worth 2, and
  receives the other, the impact for team A is 2, while the strength minus the value of
  the original starting lineup is 0.
\<close>

theorem C1_baseline_counterexample:
  "raw_a (evaluate swapA swapB [] swapNeed [''a1''] [''b1''] (- 0.35) 0.25 1) = 2
   \<and> sumValues (chosenLineup
        (removeOutgoing (fst (pickStarters swapNeed swapA)) (outgoing swapA [''a1'']))
        (removeOutgoing (snd (pickStarters swapNeed swapA)) (outgoing swapA [''a1'']))
        (Some (outgoing swapB [''b1''])) (Some []) swapNeed)
      - sumValues (fst (pickStarters swapNeed swapA)) = 0
   \<and> raw_a (evaluate swapA swapB [] swapNeed [''a1''] [''b1''] (- 0.35) 0.25 1)
      \<noteq> sumValues (chosenLineup
        (removeOutgoing (fst (pickStarters swapNeed swapA)) (outgoing swapA [''a1'']))
        (removeOutgoing (snd (pickStarters swapNeed swapA)) (outgoing swapA [''a1'']))
        (Some (outgoing swapB [''b1''])) (Some []) swapNeed)
      - sumValues (fst (pickStarters swapNeed swapA))"
  by (simp add: swapA_def swapB_def swapNeed_def ev_defs)

section \<open>Resolving the outgoing players\<close>

lemma getByKey_unresolved:
  "k \<notin> set (map (\<lambda>p. keyString (player_key p)) roster) \<Longrightarrow> k \<notin> set objectPrototypeKeys
    \<Longrightarrow> getByKey (byKey roster) k = None"
proof -
  assume a: "k \<notin> set (map (\<lambda>p. keyString (player_key p)) roster)" and b: "k \<notin> set objectPrototypeKeys"
  have "map fst (rev (byKey roster)) = rev (map (\<lambda>p. keyString (player_key p)) roster)"
    by (simp add: byKey_def rev_map comp_def)
  with a have "k \<notin> fst ` set (rev (byKey roster))"
    by (metis set_map set_rev)
  then have "map_of (rev (byKey roster)) k = None" by (simp add: map_of_eq_None_iff)
  with b show ?thesis by (simp add: getByKey_def)
qed

lemma outgoing_append: "outgoing roster (xs @ ys) = outgoing roster xs @ outgoing roster ys"
  by (simp add: outgoing_def List.map_filter_def)

lemma outgoing_drops_unresolved:
  "k \<notin> set (map (\<lambda>p. keyString (player_key p)) roster) \<Longrightarrow> k \<notin> set objectPrototypeKeys
    \<Longrightarrow> outgoing roster (xs @ k # ys) = outgoing roster (xs @ ys)"
  using getByKey_unresolved[of k roster]
  by (simp add: outgoing_def List.map_filter_def)


text \<open>
  C10. A key of \<^verbatim>\<open>sendA\<close> that is no key of the roster is dropped when it is not the
  name of a member of \<^verbatim>\<open>Object.prototype\<close> (\<open>outgoing_drops_unresolved\<close>). The key
  \<^verbatim>\<open>constructor\<close> is kept: it resolves to an inherited function, which joins the
  other team's pool as a player of value 0 that is eligible for Util. Here it takes the
  Util slot of team B that the free agent would fill: the impact for B is 0 instead of
  5, and the verdict REVIEW instead of APPROVE.
\<close>

theorem C10_inherited_key_kept:
  "outgoing keyA [''constructor''] = [inheritedMember]
   \<and> outgoing keyA [''no such key''] = []
   \<and> raw_b (evaluate keyA keyB keyFA keyNeed [''constructor''] [] (- 0.35) 0.25 1) = 0
   \<and> raw_b (evaluate keyA keyB keyFA keyNeed [] [] (- 0.35) 0.25 1) = 5
   \<and> status (verdict_of (evaluate keyA keyB keyFA keyNeed [''constructor''] [] (- 0.35) 0.25 1)) = REVIEW
   \<and> status (verdict_of (evaluate keyA keyB keyFA keyNeed [] [] (- 0.35) 0.25 1)) = APPROVE"
proof -
  have 1: "outgoing keyA [''constructor''] = [inheritedMember]"
    by (simp add: keyA_def ev_defs)
  have 2: "outgoing keyA [''no such key''] = []"
    by (simp add: keyA_def ev_defs)
  have 3: "raw_b (evaluate keyA keyB keyFA keyNeed [''constructor''] [] (- 0.35) 0.25 1) = 0"
    by (simp add: keyA_def keyB_def keyFA_def keyNeed_def ev_defs)
  have 4: "raw_b (evaluate keyA keyB keyFA keyNeed [] [] (- 0.35) 0.25 1) = 5"
    by (simp add: keyA_def keyB_def keyFA_def keyNeed_def ev_defs)
  have 5: "status (verdict_of (evaluate keyA keyB keyFA keyNeed [''constructor''] [] (- 0.35) 0.25 1)) = REVIEW"
    by (simp add: keyA_def keyB_def keyFA_def keyNeed_def ev_defs verdict_def given_def orDefault_def)
  have 6: "status (verdict_of (evaluate keyA keyB keyFA keyNeed [] [] (- 0.35) 0.25 1)) = APPROVE"
    by (simp add: keyA_def keyB_def keyFA_def keyNeed_def ev_defs verdict_def given_def orDefault_def)
  from 1 2 3 4 5 6 show ?thesis by blast
qed

section \<open>Per-game rates are safe\<close>

lemma gamesPlayed_gp: "truthy (gp p) \<Longrightarrow> gamesPlayed p = numberOr0 (gp p)"
  by (simp add: gamesPlayed_def jsOr_def)

lemma gamesPlayed_games_played:
  "\<not> truthy (gp p) \<Longrightarrow> truthy (games_played p) \<Longrightarrow> gamesPlayed p = numberOr0 (games_played p)"
  by (simp add: gamesPlayed_def jsOr_def)

lemma gamesPlayed_missing:
  "\<not> truthy (gp p) \<Longrightarrow> \<not> truthy (games_played p) \<Longrightarrow> gamesPlayed p = 0"
  by (simp add: gamesPlayed_def jsOr_def numberOr0_def)

lemma perGame_played:
  "gamesPlayed p \<noteq> 0 \<Longrightarrow>
   perGame p = p\<lparr>per := Some (map (\<lambda>(k, v). (k, numberOr0 v / gamesPlayed p)) (orEmpty (stats p)))\<rparr>"
  by (simp add: perGame_def Let_def)

lemma perGame_not_played: "gamesPlayed p = 0 \<Longrightarrow> perGame p = p\<lparr>per := Some []\<rparr>"
  by (simp add: perGame_def Let_def)

lemma map_of_rates:
  "map_of (map (\<lambda>(k, v). (k, f v)) st) k = map_option f (map_of st k)"
  by (induction st) auto

lemma perOr0_played:
  assumes "gamesPlayed p \<noteq> 0" and "stats p = Some st" and "map_of st k = Some v"
  shows "perOr0 (perGame p) k = numberOr0 v / gamesPlayed p"
  using assms
  by (simp add: perGame_played perOr0_def orEmpty_def map_of_rates[of "\<lambda>v. numberOr0 v / gamesPlayed p"])

lemma strToNumber_dash: "strToNumber ''-'' = None"
  by (simp add: strToNumber_def literalValue_examples)

lemma strToNumber_seven: "strToNumber ''7'' = Some 7"
  by (simp add: strToNumber_def literalValue_examples overflows_def double_small_integers)


text \<open>
  C5. For a player whose games played are positive, \<^verbatim>\<open>per\<close> has, for each key of the
  raw statistics, the raw number divided by the games played, where a raw value that is
  no number counts as 0. When the games played are 0 or missing, \<^verbatim>\<open>per\<close> is empty, so
  every rate read from it is 0. No branch divides by zero and the function returns a
  player for every player: it has no error result.
\<close>

theorem C5_per_game:
  fixes p :: "'k player"
  shows
  "(gamesPlayed p > 0 \<longrightarrow>
      perGame p
        = p\<lparr>per := Some (map (\<lambda>(k, v). (k, numberOr0 v / gamesPlayed p)) (orEmpty (stats p)))\<rparr>
      \<and> (\<forall>st k v. stats p = Some st \<and> map_of st k = Some v
            \<longrightarrow> perOr0 (perGame p) k = numberOr0 v / gamesPlayed p))
   \<and> (\<forall>v. numberOr0 v = (case toNumber v of None \<Rightarrow> 0 | Some r \<Rightarrow> r))
   \<and> (gamesPlayed p = 0 \<longrightarrow> perGame p = p\<lparr>per := Some []\<rparr> \<and> (\<forall>k. perOr0 (perGame p) k = 0))
   \<and> (\<not> truthy (gp p) \<and> \<not> truthy (games_played p) \<longrightarrow> gamesPlayed p = 0)
   \<and> (\<forall>g. gp p = JNum g \<and> g \<noteq> 0 \<longrightarrow> gamesPlayed p = g)
   \<and> (\<forall>g. \<not> truthy (gp p) \<and> games_played p = JNum g \<longrightarrow> gamesPlayed p = g)
   \<and> computePerGame None = ([] :: 'k player list)
   \<and> computePerGame (Some ps) = map perGame ps
   \<and> length (computePerGame (Some ps)) = length ps"
proof -
  have 1: "gamesPlayed p > 0 \<longrightarrow>
      perGame p
        = p\<lparr>per := Some (map (\<lambda>(k, v). (k, numberOr0 v / gamesPlayed p)) (orEmpty (stats p)))\<rparr>
      \<and> (\<forall>st k v. stats p = Some st \<and> map_of st k = Some v
            \<longrightarrow> perOr0 (perGame p) k = numberOr0 v / gamesPlayed p)"
    using perGame_played[of p] perOr0_played[of p] by auto
  have 2: "\<forall>v. numberOr0 v = (case toNumber v of None \<Rightarrow> 0 | Some r \<Rightarrow> r)"
    by (simp add: numberOr0_def)
  have 3: "gamesPlayed p = 0 \<longrightarrow> perGame p = p\<lparr>per := Some []\<rparr> \<and> (\<forall>k. perOr0 (perGame p) k = 0)"
    by (simp add: perGame_not_played perOr0_def)
  have 4: "\<not> truthy (gp p) \<and> \<not> truthy (games_played p) \<longrightarrow> gamesPlayed p = 0"
    by (simp add: gamesPlayed_missing)
  have 5: "\<forall>g. gp p = JNum g \<and> g \<noteq> 0 \<longrightarrow> gamesPlayed p = g"
    by (simp add: gamesPlayed_def jsOr_def numberOr0_def)
  have 6: "\<forall>g. \<not> truthy (gp p) \<and> games_played p = JNum g \<longrightarrow> gamesPlayed p = g"
    by (auto simp add: gamesPlayed_def jsOr_def numberOr0_def)
  have 7: "computePerGame None = ([] :: 'k player list)"
    by (simp add: computePerGame_def orEmpty_def)
  have 8: "computePerGame (Some ps) = map perGame ps"
    by (simp add: computePerGame_def orEmpty_def)
  have 9: "length (computePerGame (Some ps)) = length ps"
    by (simp add: computePerGame_def orEmpty_def)
  from 1 2 3 4 5 6 7 8 9 show ?thesis by blast
qed

theorem C5_per_game_witness:
  "gamesPlayed (rawPlayer (JNum 10) exampleStats) > 0
   \<and> per (perGame (rawPlayer (JNum 10) exampleStats)) = Some [(1, 1 / 2), (2, 0), (3, 7 / 10)]
   \<and> stats (rawPlayer (JNum 10) exampleStats) = Some exampleStats
   \<and> map_of exampleStats 3 = Some (JStr ''7'')
   \<and> perOr0 (perGame (rawPlayer (JNum 10) exampleStats)) 3 = 7 / 10
   \<and> gamesPlayed (rawPlayer JUndefined exampleStats) = 0
   \<and> per (perGame (rawPlayer JUndefined exampleStats)) = Some []
   \<and> perOr0 (perGame (rawPlayer JUndefined exampleStats)) 3 = 0"
proof -
  have g: "gamesPlayed (rawPlayer (JNum 10) exampleStats) = 10"
    by (simp add: gamesPlayed_def rawPlayer_def jsOr_def numberOr0_def)
  have g0: "gamesPlayed (rawPlayer JUndefined exampleStats) = 0"
    by (simp add: gamesPlayed_def rawPlayer_def jsOr_def numberOr0_def)
  have st: "stats (rawPlayer (JNum 10) exampleStats) = Some exampleStats"
    by (simp add: rawPlayer_def)
  have m: "map_of exampleStats 3 = Some (JStr ''7'')"
    by (simp add: exampleStats_def)
  let ?P = "rawPlayer (JNum 10) exampleStats"
  let ?Q = "rawPlayer JUndefined exampleStats"
  have pos: "gamesPlayed ?P > 0" using g by simp
  note th = C5_per_game[of ?P "[]"]
  note th0 = C5_per_game[of ?Q "[]"]
  from th pos have e1: "perGame ?P
      = ?P\<lparr>per := Some (map (\<lambda>(k, v). (k, numberOr0 v / gamesPlayed ?P)) (orEmpty (stats ?P)))\<rparr>"
    by blast
  from th pos st m have b0: "perOr0 (perGame ?P) 3 = numberOr0 (JStr ''7'') / gamesPlayed ?P"
    by blast
  from th0 g0 have e0: "perGame ?Q = ?Q\<lparr>per := Some []\<rparr>" by blast
  from th0 g0 have d: "perOr0 (perGame ?Q) 3 = 0" by blast
  have a: "per (perGame ?P) = Some [(1, 1 / 2), (2, 0), (3, 7 / 10)]"
    by (simp add: e1 g st orEmpty_def)
       (simp add: exampleStats_def numberOr0_def strToNumber_dash strToNumber_seven)
  have b: "perOr0 (perGame ?P) 3 = 7 / 10"
    by (simp add: b0 g numberOr0_def strToNumber_seven)
  have c: "per (perGame ?Q) = Some []"
    by (simp add: e0)
  from pos g0 st m a b c d show ?thesis by simp
qed


section \<open>The value of a player\<close>

text \<open>
  \<^verbatim>\<open>valuePlayers\<close> for the one category \<open>goals\<close>, loop by loop.
\<close>

lemma perOr0_rated: "perOr0 (ratedPlayer k [(Suc 0, r)]) (cid goals) = r"
  by (simp add: perOr0_def ratedPlayer_def goals_def)

lemma momentsOf_goals:
  "mean (momentsOf acc [goals]) (cid goals)
     = double (sums1 acc (cid goals)
               / (if counts acc (cid goals) = 0 then 1 else real (counts acc (cid goals))))"
  "stdev (momentsOf acc [goals]) (cid goals)
     = sqrtOrFloor (max (double
         (double (sums2 acc (cid goals)
                  / (if counts acc (cid goals) = 0 then 1 else real (counts acc (cid goals))))
          - double (mean (momentsOf acc [goals]) (cid goals)
                    * mean (momentsOf acc [goals]) (cid goals)))) 0)"
  by (simp_all add: momentsOf_def Let_def)

lemma sqrtOrFloor_zero: "sqrtOrFloor 0 = double (1 / 10 ^ 9)"
  by (simp add: sqrtOrFloor_def double_zero)

lemma rawValue_goals:
  "rawValue ms [goals] p
     = double (0 + double (double (perOr0 p (cid goals) - mean ms (cid goals))
                           / stdev ms (cid goals)))"
  by (simp add: rawValue_def)

lemma values_goals:
  "map value (valuePlayers pool [goals])
     = map (\<lambda>r. Some (double (toFixed 4 r)))
         (map (rawValue (momentsOf (accumulate pool [goals]) [goals]) [goals]) pool)"
  by (simp add: valuePlayers_def Let_def comp_def)


lemma sqrt_quarter: "sqrt (1 / 4) = 1 / 2"
proof -
  have "sqrt ((1 / 2)\<^sup>2) = \<bar>1 / 2\<bar>" by (rule real_sqrt_abs)
  then show ?thesis by (simp add: power2_eq_square)
qed

subsection \<open>Two close rates\<close>

text \<open>
  The roundings of the run of \<^verbatim>\<open>valuePlayers\<close> on the two players with the rates
  100000000 and 100000001: the sums, the squares and the sums of the squares, the mean,
  the mean of the squares and the square of the mean, the floor \<^verbatim>\<open>1e-9\<close>, and for each
  player the difference from the mean, the quotient, the sum and the rounded value.
\<close>

lemma closePool_roundings:
  "double (0 + 100000000) = 100000000"
  "double (100000000 * 100000000) = 10000000000000000"
  "double (100000000 + 100000001) = 200000001"
  "double (100000001 * 100000001) = 10000000200000000"
  "double (10000000000000000 + 10000000200000000) = 20000000200000000"
  "double (200000001 / 2) = 200000001 / 2"
  "double (20000000200000000 / 2) = 10000000100000000"
  "double ((200000001 / 2) * (200000001 / 2)) = 10000000100000000"
  "double (1 / 10 ^ 9) = 4835703278458517 / 2 ^ 82"
  "double (100000000 - (200000001 / 2)) = - (1 / 2)"
  "double ((- (1 / 2)) / (4835703278458517 / 2 ^ 82)) = - (8388607999999999 / 2 ^ 24)"
  "double (0 + (- (8388607999999999 / 2 ^ 24))) = - (8388607999999999 / 2 ^ 24)"
  "double (- 500000000) = - 500000000"
  "double (100000001 - (200000001 / 2)) = 1 / 2"
  "double ((1 / 2) / (4835703278458517 / 2 ^ 82)) = 8388607999999999 / 2 ^ 24"
  "double (0 + (8388607999999999 / 2 ^ 24)) = 8388607999999999 / 2 ^ 24"
  "double (500000000) = 500000000"
proof -
  show "double (0 + 100000000) = 100000000"
    using double_eval[of 26 "0 + 100000000" 6710886400000000] by (simp add: sgn_if)
  show "double (100000000 * 100000000) = 10000000000000000"
    using double_eval[of 53 "100000000 * 100000000" 5000000000000000] by (simp add: sgn_if)
  show "double (100000000 + 100000001) = 200000001"
    using double_eval[of 27 "100000000 + 100000001" 6710886433554432] by (simp add: sgn_if)
  show "double (100000001 * 100000001) = 10000000200000000"
    using double_eval[of 53 "100000001 * 100000001" 5000000100000000] by (simp add: sgn_if)
  show "double (10000000000000000 + 10000000200000000) = 20000000200000000"
    using double_eval[of 54 "10000000000000000 + 10000000200000000" 5000000050000000] by (simp add: sgn_if)
  show "double (200000001 / 2) = 200000001 / 2"
    using double_eval[of 26 "200000001 / 2" 6710886433554432] by (simp add: sgn_if)
  show "double (20000000200000000 / 2) = 10000000100000000"
    using double_eval[of 53 "20000000200000000 / 2" 5000000050000000] by (simp add: sgn_if)
  show "double ((200000001 / 2) * (200000001 / 2)) = 10000000100000000"
    using double_eval[of 53 "(200000001 / 2) * (200000001 / 2)" 5000000050000000] by (simp add: sgn_if)
  show "double (1 / 10 ^ 9) = 4835703278458517 / 2 ^ 82"
    using double_eval[of "- 30" "1 / 10 ^ 9" 4835703278458517] by (simp add: sgn_if)
  show "double (100000000 - (200000001 / 2)) = - (1 / 2)"
    using double_eval[of "- 1" "100000000 - (200000001 / 2)" 4503599627370496] by (simp add: sgn_if)
  show "double ((- (1 / 2)) / (4835703278458517 / 2 ^ 82)) = - (8388607999999999 / 2 ^ 24)"
    using double_eval[of 28 "(- (1 / 2)) / (4835703278458517 / 2 ^ 82)" 8388607999999999] by (simp add: sgn_if)
  show "double (0 + (- (8388607999999999 / 2 ^ 24))) = - (8388607999999999 / 2 ^ 24)"
    using double_eval[of 28 "0 + (- (8388607999999999 / 2 ^ 24))" 8388607999999999] by (simp add: sgn_if)
  show "double (- 500000000) = - 500000000"
    using double_eval[of 28 "- 500000000" 8388608000000000] by (simp add: sgn_if)
  show "double (100000001 - (200000001 / 2)) = 1 / 2"
    using double_eval[of "- 1" "100000001 - (200000001 / 2)" 4503599627370496] by (simp add: sgn_if)
  show "double ((1 / 2) / (4835703278458517 / 2 ^ 82)) = 8388607999999999 / 2 ^ 24"
    using double_eval[of 28 "(1 / 2) / (4835703278458517 / 2 ^ 82)" 8388607999999999] by (simp add: sgn_if)
  show "double (0 + (8388607999999999 / 2 ^ 24)) = 8388607999999999 / 2 ^ 24"
    using double_eval[of 28 "0 + (8388607999999999 / 2 ^ 24)" 8388607999999999] by (simp add: sgn_if)
  show "double (500000000) = 500000000"
    using double_eval[of 28 "500000000" 8388608000000000] by (simp add: sgn_if)
qed

lemmas closePool_steps = closePool_roundings[THEN double_at]

lemma closePool_accumulate:
  "sums1 (accumulate closePool [goals]) (cid goals) = 200000001"
  "sums2 (accumulate closePool [goals]) (cid goals) = 20000000200000000"
  "counts (accumulate closePool [goals]) (cid goals) = 2"
  by (simp_all add: accumulate_def closePool_def addPlayer_def initAccum_def emptyAccum_def
      Let_def perOr0_rated closePool_steps)

lemma closePool_moments:
  "mean (momentsOf (accumulate closePool [goals]) [goals]) (cid goals) = 200000001 / 2"
  "stdev (momentsOf (accumulate closePool [goals]) [goals]) (cid goals) = double (1 / 10 ^ 9)"
proof -
  show m: "mean (momentsOf (accumulate closePool [goals]) [goals]) (cid goals) = 200000001 / 2"
    by (simp add: momentsOf_goals closePool_accumulate closePool_steps)
  have "max (double (double (20000000200000000 / 2)
                     - double ((200000001 / 2) * (200000001 / 2)))) 0 = (0::real)"
    by (simp add: closePool_steps double_zero)
  then show "stdev (momentsOf (accumulate closePool [goals]) [goals]) (cid goals)
      = double (1 / 10 ^ 9)"
    by (simp add: momentsOf_goals(2) m closePool_accumulate sqrtOrFloor_zero)
qed

lemma closePool_raw:
  "map (rawValue (momentsOf (accumulate closePool [goals]) [goals]) [goals]) closePool
     = [- (8388607999999999 / 2 ^ 24), 8388607999999999 / 2 ^ 24]"
proof -
  define ms where "ms = momentsOf (accumulate closePool [goals]) [goals]"
  have m: "mean ms (cid goals) = 200000001 / 2" "stdev ms (cid goals) = double (1 / 10 ^ 9)"
    by (simp_all add: ms_def closePool_moments)
  have "map (rawValue ms [goals]) closePool
      = [- (8388607999999999 / 2 ^ 24), 8388607999999999 / 2 ^ 24]"
    by (simp add: rawValue_goals closePool_def perOr0_rated m closePool_steps)
  then show ?thesis by (simp add: ms_def)
qed

lemma closePool_values:
  "map value (valuePlayers closePool [goals]) = [Some (- 500000000), Some 500000000]"
  by (simp add: values_goals closePool_raw toFixed_def closePool_steps)

lemma closePool_population:
  "popMean closePool (cid goals) = 200000001 / 2"
  "popStdev closePool (cid goals) = 1 / 2"
proof -
  show m: "popMean closePool (cid goals) = 200000001 / 2"
    by (simp add: popMean_def closePool_def perOr0_rated)
  have "popStdev closePool (cid goals) = sqrt (1 / 4)"
    unfolding popStdev_def m by (simp add: closePool_def perOr0_rated power2_eq_square)
  then show "popStdev closePool (cid goals) = 1 / 2" by (simp only: sqrt_quarter)
qed

lemma closePool_zscores:
  "map (\<lambda>p. toFixed 4 (zscore closePool (cid goals) p)) closePool = [- 1, 1]"
proof -
  have z: "map (zscore closePool (cid goals)) closePool = [- 1, 1]"
    unfolding zscore_def flooredStdev_def closePool_population
    by (simp add: closePool_def perOr0_rated)
  have t: "map (toFixed 4) [- 1, 1] = [- 1, 1]" by (simp add: toFixed_def)
  have "map (\<lambda>p. toFixed 4 (zscore closePool (cid goals) p)) closePool
      = map (toFixed 4) (map (zscore closePool (cid goals)) closePool)"
    by (simp add: comp_def)
  with z t show ?thesis by simp
qed

text \<open>
  C6 does not hold of the code. For the two players with the rates 100000000 and
  100000001 and the one category, the population standard deviation is 1/2 and the
  z-scores, rounded to 4 decimal places, are -1 and 1. \<^verbatim>\<open>valuePlayers\<close> computes the
  variance as the difference of the mean of the squares and the square of the mean, which
  round to the same double: its variance is 0, its standard deviation the floor
  \<^verbatim>\<open>1e-9\<close>, and the values it assigns are -500000000 and 500000000.
\<close>

theorem C6_variance_cancels:
  "map value (valuePlayers closePool [goals]) = [Some (- 500000000), Some 500000000]
   \<and> stdev (momentsOf (accumulate closePool [goals]) [goals]) (cid goals) = double (1 / 10 ^ 9)
   \<and> popStdev closePool (cid goals) = 1 / 2
   \<and> map (\<lambda>p. toFixed 4 (zscore closePool (cid goals) p)) closePool = [- 1, 1]"
  using closePool_values closePool_moments(2) closePool_population(2) closePool_zscores
  by (intro conjI)

subsection \<open>Running the scorer twice\<close>

lemma perOr0_value_update: "perOr0 (p\<lparr>value := x\<rparr>) k = perOr0 p k"
  by (simp add: perOr0_def)

lemma addPlayer_value_update: "addPlayer cats (p\<lparr>value := x\<rparr>) a = addPlayer cats p a"
  by (simp add: addPlayer_def perOr0_value_update)

lemma accumulate_value_update:
  "accumulate (map (\<lambda>p. p\<lparr>value := w p\<rparr>) pool) cats = accumulate pool cats"
proof -
  have "fold (addPlayer cats) (map (\<lambda>p. p\<lparr>value := w p\<rparr>) pool) a = fold (addPlayer cats) pool a" for a
    by (induction pool arbitrary: a) (simp_all add: addPlayer_value_update)
  then show ?thesis by (simp add: accumulate_def)
qed

lemma rawValue_value_update: "rawValue ms cats (p\<lparr>value := x\<rparr>) = rawValue ms cats p"
  by (simp add: rawValue_def perOr0_value_update)

lemma valuePlayers_ignores_value:
  "valuePlayers (map (\<lambda>p. p\<lparr>value := w p\<rparr>) pool) cats = valuePlayers pool cats"
  by (simp add: valuePlayers_def Let_def accumulate_value_update rawValue_value_update comp_def)


text \<open>
  C7. Running \<^verbatim>\<open>valuePlayers\<close> on a pool it has already scored gives the same pool,
  with the same values: the result does not depend on the values the players carry,
  whatever they are.
\<close>

theorem C7_idempotent:
  "valuePlayers (valuePlayers pool cats) cats = valuePlayers pool cats
   \<and> map value (valuePlayers (valuePlayers pool cats) cats) = map value (valuePlayers pool cats)
   \<and> valuePlayers (map (\<lambda>p. p\<lparr>value := w p\<rparr>) pool) cats = valuePlayers pool cats"
proof -
  have "valuePlayers pool cats
      = map (\<lambda>p. p\<lparr>value := Some (double (toFixed 4
              (rawValue (momentsOf (accumulate pool cats) cats) cats p)))\<rparr>) pool"
    by (simp add: valuePlayers_def Let_def)
  then have "valuePlayers (valuePlayers pool cats) cats = valuePlayers pool cats"
    using valuePlayers_ignores_value[of
        "\<lambda>p. Some (double (toFixed 4 (rawValue (momentsOf (accumulate pool cats) cats) cats p)))"
        pool cats]
    by simp
  then show ?thesis by (simp add: valuePlayers_ignores_value)
qed

subsection \<open>A constant rate\<close>









section \<open>The category list\<close>

subsection \<open>Descriptors\<close>

lemma startsWith_iff: "startsWith cs ns \<longleftrightarrow> (\<exists>suf. cs = ns @ suf)"
  by (induction cs ns rule: startsWith.induct) auto

lemma includesStr_iff: "includesStr cs ns \<longleftrightarrow> (\<exists>pre suf. cs = pre @ ns @ suf)"
proof (induction cs)
  case Nil
  then show ?case by auto
next
  case (Cons c cs)
  show ?case
  proof
    assume "includesStr (c # cs) ns"
    then consider "startsWith (c # cs) ns" | "includesStr cs ns" by auto
    then show "\<exists>pre suf. c # cs = pre @ ns @ suf"
    proof cases
      case 1
      then obtain suf where "c # cs = ns @ suf" by (auto simp: startsWith_iff)
      then have "c # cs = [] @ ns @ suf" by simp
      then show ?thesis by blast
    next
      case 2
      with Cons.IH obtain pre suf where "cs = pre @ ns @ suf" by blast
      then have "c # cs = (c # pre) @ ns @ suf" by simp
      then show ?thesis by blast
    qed
  next
    assume "\<exists>pre suf. c # cs = pre @ ns @ suf"
    then obtain pre suf where e: "c # cs = pre @ ns @ suf" by blast
    show "includesStr (c # cs) ns"
    proof (cases pre)
      case Nil
      with e have "startsWith (c # cs) ns" by (auto simp: startsWith_iff)
      then show ?thesis by simp
    next
      case (Cons a pre')
      with e have "cs = pre' @ ns @ suf" by simp
      with Cons.IH have "includesStr cs ns" by blast
      then show ?thesis by simp
    qed
  qed
qed

lemma includesStr_self: "includesStr cs cs"
  using includesStr_iff[of cs cs] by (metis append_Nil append_Nil2)

lemma statOf_not_nullish: "\<not> nullish s \<Longrightarrow> \<not> nullish (statOf s)"
  by (auto simp: statOf_def jsonOr_def nullish_def)

lemma jsonToNumber_no_error:
  "\<not> toStringThrows x \<Longrightarrow> \<exists>r. jsonToNumber x = Inr r"
  by (cases x) (simp_all add: jsonToNumber_def)

lemma jsonToNumber_error: "toStringThrows x \<Longrightarrow> jsonToNumber x = Inl TypeError"
  by (cases x) (simp_all add: jsonToNumber_def)

lemma descriptor_wellShaped:
  assumes "wellShaped s"
  shows "descriptor s = Inr (if excluded s then None else Some (categoryOf s))"
proof -
  from assms have ns: "\<not> nullish s" and nt: "\<not> toStringThrows (idOf s)"
    and str: "isString (nameOf s)"
    by (simp_all add: wellShaped_def)
  from statOf_not_nullish[OF ns] have nst: "\<not> nullish (statOf s)" .
  from str obtain n where n: "nameOf s = JPrim (JStr n)"
    by (auto simp: isString_def split: json.splits jsval.splits)
  from jsonToNumber_no_error[OF nt] obtain r where r: "jsonToNumber (idOf s) = Inr r" by blast
  have low: "toLowerCase (jsonOr (property (statOf s) ''name'') (JPrim (JStr [])))
      = Inr (map toLowerChar n)"
    using n by (simp add: nameOf_def toLowerCase_def)
  have d: "descriptor s =
      (case r of
         None \<Rightarrow> Inr None
       | Some i \<Rightarrow>
           if includesStr (map toLowerChar n) ''games played'' then Inr None
           else Inr (Some \<lparr>cid = i, cname = property (statOf s) ''name'',
                           position_type = jsonOr (property (statOf s) ''position_type'')
                                                  (JPrim JNull)\<rparr>))"
    using ns nst low r
    by (simp add: descriptor_def getProp_def Let_def statOf_def[symmetric] idOf_def[symmetric]
        split: option.split)
  show ?thesis
    unfolding d using n r
    by (simp add: excluded_def categoryOf_def finiteId_def stringOf_def split: option.split)
qed

lemma descriptor_name:
  assumes "descriptor s = Inr (Some c)"
  shows "\<exists>n. jsonOr (cname c) (JPrim (JStr [])) = JPrim (JStr n)
           \<and> \<not> includesStr (map toLowerChar n) ''games played''"
proof -
  from assms have ns: "\<not> nullish s"
    by (auto simp: descriptor_def getProp_def split: if_splits)
  then have nst: "\<not> nullish (statOf s)" by (rule statOf_not_nullish)
  from assms ns nst obtain i where
    c: "(case toLowerCase (jsonOr (property (statOf s) ''name'') (JPrim (JStr []))) of
          Inl e \<Rightarrow> Inl e
        | Inr name \<Rightarrow>
            if includesStr name ''games played'' then Inr None
            else Inr (Some \<lparr>cid = i, cname = property (statOf s) ''name'',
                            position_type = jsonOr (property (statOf s) ''position_type'')
                                                   (JPrim JNull)\<rparr>)) = Inr (Some c)"
    by (auto simp: descriptor_def getProp_def Let_def statOf_def[symmetric]
        split: option.splits sum.splits)
  then obtain name where
    l: "toLowerCase (jsonOr (property (statOf s) ''name'') (JPrim (JStr []))) = Inr name"
    and g: "\<not> includesStr name ''games played''"
    and cn: "cname c = property (statOf s) ''name''"
    by (auto split: sum.splits if_splits)
  from l obtain n where "jsonOr (property (statOf s) ''name'') (JPrim (JStr [])) = JPrim (JStr n)"
    "name = map toLowerChar n"
    by (auto simp: toLowerCase_def split: json.splits jsval.splits)
  with g cn show ?thesis by simp
qed

lemma collect_names:
  assumes "collect ss acc = Inr cats"
    and "\<forall>c \<in> set acc. \<exists>n. jsonOr (cname c) (JPrim (JStr [])) = JPrim (JStr n)
            \<and> \<not> includesStr (map toLowerChar n) ''games played''"
  shows "\<forall>c \<in> set cats. \<exists>n. jsonOr (cname c) (JPrim (JStr [])) = JPrim (JStr n)
            \<and> \<not> includesStr (map toLowerChar n) ''games played''"
  using assms
proof (induction ss arbitrary: acc)
  case Nil
  then show ?case by simp
next
  case (Cons s ss)
  show ?case
  proof (cases "descriptor s")
    case (Inl e)
    with Cons.prems show ?thesis by simp
  next
    case (Inr r)
    show ?thesis
    proof (cases r)
      case None
      with Inr Cons.prems Cons.IH[of acc] show ?thesis by simp
    next
      case (Some c)
      with Inr have d: "descriptor s = Inr (Some c)" by simp
      from descriptor_name[OF d] Cons.prems(2)
      have "\<forall>c' \<in> set (acc @ [c]). \<exists>n. jsonOr (cname c') (JPrim (JStr [])) = JPrim (JStr n)
            \<and> \<not> includesStr (map toLowerChar n) ''games played''" by auto
      with d Cons.prems(1) Cons.IH[of "acc @ [c]"] show ?thesis by simp
    qed
  qed
qed

lemma collect_wellShaped:
  assumes "\<forall>s \<in> set ss. wellShaped s"
  shows "collect ss acc = Inr (acc @ map categoryOf (filter (\<lambda>s. \<not> excluded s) ss))"
  using assms
  by (induction ss arbitrary: acc) (simp_all add: descriptor_wellShaped)

lemma statsOf_missing:
  "nullish settings \<or> nullish (property settings ''stat_categories'')
     \<or> (\<not> jsonTruthy (property (property settings ''stat_categories'') ''stats'')
         \<and> \<not> jsonTruthy (property (property settings ''stat_categories'') ''stat''))
   \<Longrightarrow> statsOf settings = JArr []"
  by (auto simp: statsOf_def optProp_def jsonOr_def nullish_def property_def)

text \<open>
  C8, as the code has it. When the list of descriptors is an array whose elements are
  neither \<^verbatim>\<open>null\<close> nor \<^verbatim>\<open>undefined\<close>, have an id that \<^verbatim>\<open>Number\<close> converts without
  an error, and have a string or no name, the result is the list of the categories of the
  descriptors that are not excluded, in order; a descriptor is excluded exactly when
  \<^verbatim>\<open>Number\<close> of its stat id is no finite number (as for a missing id) or its lowercased
  name contains ``games played''. No category of a result has a name whose lowercase form
  contains ``games played'', so a category named Games Played in any letter case is never
  in the result, whatever its id. When the settings, their \<^verbatim>\<open>stat_categories\<close> or both
  lists are missing, the result is the empty list.
\<close>

theorem C8_category_list:
  "(statsOf settings = JArr ss \<and> (\<forall>s \<in> set ss. wellShaped s)
      \<longrightarrow> buildCategoryListFromSettings settings
            = Inr (map categoryOf (filter (\<lambda>s. \<not> excluded s) ss)))
   \<and> (\<forall>s. excluded s \<longleftrightarrow>
          finiteId s = None
          \<or> (\<exists>pre suf. map toLowerChar (stringOf (nameOf s)) = pre @ ''games played'' @ suf))
   \<and> jsonToNumber (JPrim JUndefined) = Inr None
   \<and> (buildCategoryListFromSettings settings = Inr cats
      \<longrightarrow> (\<forall>c \<in> set cats. \<exists>n. jsonOr (cname c) (JPrim (JStr [])) = JPrim (JStr n)
              \<and> \<not> includesStr (map toLowerChar n) ''games played''))
   \<and> (\<forall>n. map toLowerChar n = ''games played''
          \<and> buildCategoryListFromSettings settings = Inr cats
        \<longrightarrow> (\<forall>c \<in> set cats. cname c \<noteq> JPrim (JStr n)))
   \<and> (nullish settings \<or> nullish (property settings ''stat_categories'')
       \<or> (\<not> jsonTruthy (property (property settings ''stat_categories'') ''stats'')
           \<and> \<not> jsonTruthy (property (property settings ''stat_categories'') ''stat''))
      \<longrightarrow> buildCategoryListFromSettings settings = Inr [])"
proof -
  have 1: "statsOf settings = JArr ss \<and> (\<forall>s \<in> set ss. wellShaped s)
      \<longrightarrow> buildCategoryListFromSettings settings
            = Inr (map categoryOf (filter (\<lambda>s. \<not> excluded s) ss))"
    using collect_wellShaped[of ss "[]"]
    by (auto simp: buildCategoryListFromSettings_def iterate_def)
  have 2: "\<forall>s. excluded s \<longleftrightarrow>
          finiteId s = None
          \<or> (\<exists>pre suf. map toLowerChar (stringOf (nameOf s)) = pre @ ''games played'' @ suf)"
    by (simp add: excluded_def includesStr_iff)
  have 3: "jsonToNumber (JPrim JUndefined) = Inr None" by (simp add: jsonToNumber_def)
  have 4: "\<forall>c \<in> set cats. \<exists>n. jsonOr (cname c) (JPrim (JStr [])) = JPrim (JStr n)
              \<and> \<not> includesStr (map toLowerChar n) ''games played''"
    if b: "buildCategoryListFromSettings settings = Inr cats"
  proof -
    from b obtain xs where "iterate (statsOf settings) = Inr xs" "collect xs [] = Inr cats"
      by (auto simp: buildCategoryListFromSettings_def split: sum.splits)
    from collect_names[OF this(2)] show ?thesis by simp
  qed
  have 5: "\<forall>c \<in> set cats. cname c \<noteq> JPrim (JStr n)"
    if l: "map toLowerChar n = ''games played''"
      and b: "buildCategoryListFromSettings settings = Inr cats" for n
  proof
    fix c assume c: "c \<in> set cats"
    show "cname c \<noteq> JPrim (JStr n)"
    proof
      assume e: "cname c = JPrim (JStr n)"
      from l have "n \<noteq> []" by auto
      with e have "jsonOr (cname c) (JPrim (JStr [])) = JPrim (JStr n)" by (simp add: jsonOr_def)
      moreover from 4[OF b] c obtain m where "jsonOr (cname c) (JPrim (JStr [])) = JPrim (JStr m)"
        "\<not> includesStr (map toLowerChar m) ''games played''" by blast
      ultimately have "\<not> includesStr (map toLowerChar n) ''games played''" by simp
      with l includesStr_self[of "''games played''"] show False by simp
    qed
  qed
  have 6: "nullish settings \<or> nullish (property settings ''stat_categories'')
       \<or> (\<not> jsonTruthy (property (property settings ''stat_categories'') ''stats'')
           \<and> \<not> jsonTruthy (property (property settings ''stat_categories'') ''stat''))
      \<longrightarrow> buildCategoryListFromSettings settings = Inr []"
    using statsOf_missing[of settings]
    by (auto simp: buildCategoryListFromSettings_def iterate_def)
  have i4: "buildCategoryListFromSettings settings = Inr cats
      \<longrightarrow> (\<forall>c \<in> set cats. \<exists>n. jsonOr (cname c) (JPrim (JStr [])) = JPrim (JStr n)
              \<and> \<not> includesStr (map toLowerChar n) ''games played'')"
    using 4 by blast
  have i5: "\<forall>n. map toLowerChar n = ''games played''
          \<and> buildCategoryListFromSettings settings = Inr cats
        \<longrightarrow> (\<forall>c \<in> set cats. cname c \<noteq> JPrim (JStr n))"
  proof (intro allI impI)
    fix n
    assume h: "map toLowerChar n = ''games played''
          \<and> buildCategoryListFromSettings settings = Inr cats"
    from h have a: "map toLowerChar n = ''games played''" by (rule conjunct1)
    from h have b: "buildCategoryListFromSettings settings = Inr cats" by (rule conjunct2)
    from 5[OF a b] show "\<forall>c \<in> set cats. cname c \<noteq> JPrim (JStr n)" .
  qed
  from 1 2 3 i4 i5 6 show ?thesis by (intro conjI)
qed

subsection \<open>The example settings\<close>

lemma strToNumber_empty: "strToNumber [] = Some 0"
  by (simp add: strToNumber_def literalValue_examples overflows_def double_zero)

lemma strToNumber_one: "strToNumber ''1'' = Some 1"
  by (simp add: strToNumber_def literalValue_examples overflows_def double_small_integers)

lemma strToNumber_x: "strToNumber ''x'' = None"
  by (simp add: strToNumber_def literalValue_examples)

lemma exampleSettings_stats: "statsOf exampleSettings = JArr exampleDescriptors"
  by (simp add: statsOf_def exampleSettings_def optProp_def nullish_def property_def jsonOr_def)

lemma exampleDescriptors_wellShaped: "list_all wellShaped exampleDescriptors"
  by code_simp

lemma example_ids:
  "idOf statGoals = JPrim (JStr ''1'')"
  "idOf statGames = JPrim (JNum 0)"
  "idOf statAssists = JPrim (JStr ''x'')"
  "idOf statPoints = JPrim JUndefined"
  by code_simp+

lemma example_names:
  "includesStr (map toLowerChar (stringOf (nameOf statGoals))) ''games played'' = False"
  "includesStr (map toLowerChar (stringOf (nameOf statGames))) ''games played'' = True"
  "property (statOf statGoals) ''name'' = JPrim (JStr ''Goals'')"
  "jsonOr (property (statOf statGoals) ''position_type'') (JPrim JNull) = JPrim (JStr ''P'')"
  by code_simp+

lemma exampleDescriptors_kept:
  "map categoryOf (filter (\<lambda>s. \<not> excluded s) exampleDescriptors)
     = [\<lparr>cid = 1, cname = JPrim (JStr ''Goals''), position_type = JPrim (JStr ''P'')\<rparr>]"
proof -
  have f: "finiteId statGoals = Some 1" "finiteId statAssists = None" "finiteId statPoints = None"
    by (simp_all add: finiteId_def example_ids jsonToNumber_def strToNumber_one strToNumber_x)
  have e: "\<not> excluded statGoals" "excluded statGames" "excluded statAssists" "excluded statPoints"
    by (simp_all add: excluded_def f example_names)
  have c: "categoryOf statGoals
      = \<lparr>cid = 1, cname = JPrim (JStr ''Goals''), position_type = JPrim (JStr ''P'')\<rparr>"
    by (simp add: categoryOf_def f example_names)
  show ?thesis by (simp add: exampleDescriptors_def e c)
qed

lemma games_played_lower: "map toLowerChar ''GAMES Played'' = ''games played''"
  by code_simp

theorem C8_category_list_witness:
  "statsOf exampleSettings = JArr exampleDescriptors
   \<and> list_all wellShaped exampleDescriptors
   \<and> buildCategoryListFromSettings exampleSettings
       = Inr [\<lparr>cid = 1, cname = JPrim (JStr ''Goals''), position_type = JPrim (JStr ''P'')\<rparr>]
   \<and> map toLowerChar ''GAMES Played'' = ''games played''
   \<and> nullish (JPrim JUndefined)
   \<and> buildCategoryListFromSettings (JPrim JUndefined) = Inr []"
proof -
  note th = C8_category_list[of exampleSettings exampleDescriptors
      "[\<lparr>cid = 1, cname = JPrim (JStr ''Goals''), position_type = JPrim (JStr ''P'')\<rparr>]"]
  note th0 = C8_category_list[of "JPrim JUndefined" "[]" "[]"]
  have w: "\<forall>s \<in> set exampleDescriptors. wellShaped s"
    using exampleDescriptors_wellShaped by (simp add: list_all_iff)
  from th exampleSettings_stats w
  have b: "buildCategoryListFromSettings exampleSettings
      = Inr (map categoryOf (filter (\<lambda>s. \<not> excluded s) exampleDescriptors))"
    by blast
  have n: "nullish (JPrim JUndefined)" by (simp add: nullish_def)
  from th0 n have e: "buildCategoryListFromSettings (JPrim JUndefined) = Inr []" by blast
  from exampleSettings_stats exampleDescriptors_wellShaped b games_played_lower n e
  show ?thesis by (simp add: exampleDescriptors_kept)
qed

subsection \<open>Malformed settings\<close>

lemma lower_goals:
  "toLowerCase (JPrim (JStr ''Goals'')) = Inr ''goals''"
  "includesStr ''goals'' ''games played'' = False"
  by code_simp+

lemma settingsWith_stats: "statsOf (settingsWith (JArr xs)) = JArr xs"
  by (simp add: statsOf_def settingsWith_def optProp_def nullish_def property_def jsonOr_def)

lemma descriptor_named:
  "descriptor (named i) =
     (case jsonToNumber i of
        Inl e \<Rightarrow> Inl e
      | Inr None \<Rightarrow> Inr None
      | Inr (Some n) \<Rightarrow>
          Inr (Some \<lparr>cid = n, cname = JPrim (JStr ''Goals''), position_type = JPrim JNull\<rparr>))"
  by (simp add: descriptor_def named_def getProp_def nullish_def property_def jsonOr_def Let_def
      lower_goals split: sum.split option.split)

lemma build_named:
  "buildCategoryListFromSettings (settingsWith (JArr [named i])) =
     (case jsonToNumber i of
        Inl e \<Rightarrow> Inl e
      | Inr None \<Rightarrow> Inr []
      | Inr (Some n) \<Rightarrow>
          Inr [\<lparr>cid = n, cname = JPrim (JStr ''Goals''), position_type = JPrim JNull\<rparr>])"
  by (simp add: buildCategoryListFromSettings_def settingsWith_stats iterate_def descriptor_named
      split: sum.split option.split)

text \<open>
  A numeric string beyond the range of the doubles converts to an infinity, which is no
  finite number, and one below it to 0: the first id is excluded, the second is the id 0.
\<close>

lemma strToNumber_out_of_range: "strToNumber ''1e309'' = None"
  by (simp add: strToNumber_def literalValue_examples overflows_def)

lemma strToNumber_underflow: "strToNumber ''1e-400'' = Some 0"
proof -
  have "double (1 / 10 ^ 400) = 0" by (rule double_tiny) simp
  then show ?thesis by (simp add: strToNumber_def literalValue_examples overflows_def)
qed

lemma build_id_out_of_range:
  "buildCategoryListFromSettings (settingsWith (JArr [named (JPrim (JStr ''1e309''))])) = Inr []"
  "buildCategoryListFromSettings (settingsWith (JArr [named (JPrim (JStr ''1e-400''))]))
     = Inr [\<lparr>cid = 0, cname = JPrim (JStr ''Goals''), position_type = JPrim JNull\<rparr>]"
  by (simp_all add: build_named jsonToNumber_def strToNumber_out_of_range strToNumber_underflow)

lemma build_raises:
  "buildCategoryListFromSettings (settingsWith (JArr [JPrim JNull])) = Inl TypeError"
  "buildCategoryListFromSettings
     (settingsWith (JArr [JObj [(''stat_id'', JPrim (JNum 7)), (''name'', JPrim (JNum 5))]]))
     = Inl TypeError"
  "buildCategoryListFromSettings (settingsWith (JObj [])) = Inl TypeError"
  by code_simp+

text \<open>
  The claim as written fails. A malformed input can raise an error: a \<^verbatim>\<open>null\<close>
  descriptor, a name that is a number, a list of descriptors that is an object, an id that
  is an object with a property \<^verbatim>\<open>toString\<close>. And an id that is not numeric is not
  always excluded: the empty string and \<^verbatim>\<open>true\<close> convert to 0 and 1.
\<close>

theorem C8_malformed_counterexample:
  "buildCategoryListFromSettings (settingsWith (JArr [JPrim JNull])) = Inl TypeError
   \<and> buildCategoryListFromSettings
        (settingsWith (JArr [JObj [(''stat_id'', JPrim (JNum 7)), (''name'', JPrim (JNum 5))]]))
       = Inl TypeError
   \<and> buildCategoryListFromSettings (settingsWith (JObj [])) = Inl TypeError
   \<and> buildCategoryListFromSettings
        (settingsWith (JArr [named (JObj [(''toString'', JPrim (JNum 1))])])) = Inl TypeError
   \<and> buildCategoryListFromSettings (settingsWith (JArr [named (JPrim (JStr []))]))
       = Inr [\<lparr>cid = 0, cname = JPrim (JStr ''Goals''), position_type = JPrim JNull\<rparr>]
   \<and> buildCategoryListFromSettings (settingsWith (JArr [named (JPrim (JBool True))]))
       = Inr [\<lparr>cid = 1, cname = JPrim (JStr ''Goals''), position_type = JPrim JNull\<rparr>]"
  using build_raises
  by (simp add: build_named jsonToNumber_def strToNumber_empty)

end
